theory Spec2Isabelle
  imports Main "HOL-Library.Word" "HOL-Library.Char_ord" "HOL-Library.List_Lexorder"
    "HOL-Library.Multiset" "HOL-Library.AList"
begin

section \<open>Strings\<close>

text \<open>
  Go strings are modelled as \<^typ>\<open>string\<close>; one \<^typ>\<open>char\<close> is one rune, so the model
  covers single-byte (ASCII) word lists, where \<open>len(s)\<close> and \<open>len([]rune(s))\<close> agree.
\<close>

fun HasPrefix :: "string \<Rightarrow> string \<Rightarrow> bool" where
  "HasPrefix s [] = True"
| "HasPrefix [] (p # ps) = False"
| "HasPrefix (c # cs) (p # ps) = (c = p \<and> HasPrefix cs ps)"

text \<open>\<open>strings.Contains(s, substr)\<close>: \<open>substr\<close> occurs somewhere in \<open>s\<close>.\<close>

fun Contains :: "string \<Rightarrow> string \<Rightarrow> bool" where
  "Contains [] sub = (sub = [])"
| "Contains (c # cs) sub = (HasPrefix (c # cs) sub \<or> Contains cs sub)"

text \<open>
  \<open>strings.Fields\<close> splits a line around runs of white space; the ASCII white space
  characters are tab, line feed, vertical tab, form feed, carriage return and space.
\<close>

definition isSpace :: "char \<Rightarrow> bool" where
  "isSpace c = (c \<in> set [CHR 0x09, CHR 0x0A, CHR 0x0B, CHR 0x0C, CHR 0x0D, CHR 0x20])"

fun FieldsFrom :: "string \<Rightarrow> string \<Rightarrow> string list" where
  "FieldsFrom cur [] = (if cur = [] then [] else [rev cur])"
| "FieldsFrom cur (c # cs) =
     (if isSpace c then (if cur = [] then FieldsFrom [] cs else rev cur # FieldsFrom [] cs)
      else FieldsFrom (c # cur) cs)"

definition Fields :: "string \<Rightarrow> string list" where
  "Fields s = FieldsFrom [] s"

definition upperOf :: "char \<Rightarrow> char" where
  "upperOf c =
     (case map_of (zip ''abcdefghijklmnopqrstuvwxyz'' ''ABCDEFGHIJKLMNOPQRSTUVWXYZ'') c of
        None \<Rightarrow> c
      | Some u \<Rightarrow> u)"

definition ToUpper :: "string \<Rightarrow> string" where
  "ToUpper s = map upperOf s"

fun Join :: "string list \<Rightarrow> string \<Rightarrow> string" where
  "Join [] sep = []"
| "Join [x] sep = x"
| "Join (x # y # ys) sep = x @ sep @ Join (y # ys) sep"

section \<open>Lexicon context\<close>

text \<open>
  Modelled from the spec: the type \<open>FamilyName\<close> and its constants \<open>FamilyCSW\<close> and
  \<open>FamilyTWL\<close> are declared in a file of the package that is not part of the sources at
  hand. The spec speaks of two sibling families with further families possible.
\<close>

datatype FamilyName = FamilyCSW | FamilyTWL | FamilyOther string

text \<open>
  Modelled from the spec: the constants \<open>LexiconUpdateSymbol\<close>, \<open>CSWOnlySymbol\<close> and
  \<open>TWLOnlySymbol\<close> are declared outside the sources at hand. Their values are the ones
  the comments of \<open>containsWordUniqueToLexSplit\<close> and \<open>containsUpdateToLex\<close> name:
  \<open>+\<close> for an update, \<open>#\<close> for the CSW lexicon, \<open>$\<close> for the American one.
\<close>

definition LexiconUpdateSymbol :: string where
  "LexiconUpdateSymbol = ''+''"

definition CSWOnlySymbol :: string where
  "CSWOnlySymbol = ''#''"

definition TWLOnlySymbol :: string where
  "TWLOnlySymbol = ''$''"

text \<open>
  The gaddag package is external. A dawg is modelled by the set of words it accepts and
  \<open>gaddag.FindWord\<close> by membership; the hook queries are parameters.
\<close>

type_synonym Dawg = "string set"

definition FindWord :: "Dawg \<Rightarrow> string \<Rightarrow> bool" where
  "FindWord d w = (w \<in> d)"

datatype HookType = BackHooks | FrontHooks | BackInnerHook | FrontInnerHook

record Gaddag =
  FindHooks :: "Dawg \<Rightarrow> string \<Rightarrow> HookType \<Rightarrow> string"
  FindInnerHook :: "Dawg \<Rightarrow> string \<Rightarrow> HookType \<Rightarrow> bool"

text \<open>
  \<open>alphabet.LetterDistribution\<close> is external; the fields are the ones the package reads.
  \<open>MakeAlphagram\<close> stands for \<open>alphabet.Word{Word: w, Dist: dist}.MakeAlphagram()\<close>.
\<close>

record LetterDistribution =
  PointValues :: "char \<Rightarrow> 8 word"
  Vowels :: "char list"
  MakeAlphagram :: "string \<Rightarrow> string"

text \<open>
  \<open>LexiconInfo\<close> is declared outside the sources at hand; the fields are the ones that
  \<open>CreateLexiconDatabase\<close> and \<open>findLexSymbols\<close> read. \<open>Difficulties\<close> together with
  \<open>alphagramDifficulty\<close> is taken as the lookup of an alphagram's difficulty, and
  \<open>Initialize\<close> as already done. \<open>LetterDist\<close> is the field \<open>LetterDistribution\<close>.
\<close>

record LexiconInfo =
  LexiconFilename :: string
  Combinations :: "string \<Rightarrow> bool \<Rightarrow> 64 word"
  LetterDist :: LetterDistribution
  Dawg :: Dawg
  RDawg :: Dawg
  Difficulties :: "string \<Rightarrow> int"

definition alphagramDifficulty :: "string \<Rightarrow> (string \<Rightarrow> int) \<Rightarrow> int" where
  "alphagramDifficulty a difficulties = difficulties a"

text \<open>
  \<open>LexiconMap\<close> is declared outside the sources at hand; its three queries are
  parameters. \<open>familyName\<close> and \<open>priorLexicon\<close> return \<open>None\<close> where the Go methods
  return an error.
\<close>

record LexiconMap =
  familyName :: "string \<Rightarrow> FamilyName option"
  newestInFamily :: "FamilyName \<Rightarrow> LexiconInfo"
  priorLexicon :: "FamilyName \<Rightarrow> string \<Rightarrow> LexiconInfo option"

section \<open>Alphagram classes\<close>

record Alphagram =
  words :: "string list"
  combinations :: "64 word"
  alphagram :: string
  wordCount :: "8 word"
  uniqToLexSplit :: "8 word"
  updateToLex :: "8 word"

definition pointValue :: "Alphagram \<Rightarrow> LetterDistribution \<Rightarrow> 8 word" where
  "pointValue a dist = foldl (\<lambda>pts rn. pts + PointValues dist rn) 0 (alphagram a)"

definition numVowels :: "Alphagram \<Rightarrow> LetterDistribution \<Rightarrow> 8 word" where
  "numVowels a dist =
     foldl (\<lambda>vowels rn. if rn \<in> set (Vowels dist) then vowels + 1 else vowels) 0 (alphagram a)"

text \<open>\<open>AlphByCombos.Less\<close>, on the two elements it compares.\<close>

definition Less :: "Alphagram \<Rightarrow> Alphagram \<Rightarrow> bool" where
  "Less a b =
     (if combinations a = combinations b then alphagram a < alphagram b
      else combinations a > combinations b)"

text \<open>
  \<open>sort.Sort\<close> orders the slice by \<open>Less\<close>. It is not stable, but \<open>Less\<close> is a strict total
  order on classes with different alphagram strings, so the sorted slice is determined by
  \<open>Less\<close>; insertion sort computes it.
\<close>

fun insertAlph :: "Alphagram \<Rightarrow> Alphagram list \<Rightarrow> Alphagram list" where
  "insertAlph x [] = [x]"
| "insertAlph x (y # ys) = (if Less y x then y # insertAlph x ys else x # y # ys)"

definition sortAlphByCombos :: "Alphagram list \<Rightarrow> Alphagram list" where
  "sortAlphByCombos xs = foldr insertAlph xs []"

section \<open>Reading the word list\<close>

text \<open>
  A Go map is modelled by an association list with distinct keys, kept in the order of
  first insertion. Go iterates a map in an unspecified order; the two places that iterate
  one sort what they collected before using it.
\<close>

type_synonym ('k, 'v) gomap = "('k \<times> 'v) list"

text \<open>
  Modelled from the spec: \<open>addToDefinitions\<close> and \<open>expandDefinitions\<close> are functions of the
  package outside the sources at hand. Per the spec the result maps every word of the list
  to a definition, and the last definition wins when a word occurs more than once.
\<close>

definition addToDefinitions ::
  "string \<Rightarrow> string \<Rightarrow> (string, string) gomap \<Rightarrow> (string, string) gomap" where
  "addToDefinitions word definition defs = AList.update word definition defs"

definition expandDefinitions :: "(string, string) gomap \<Rightarrow> (string, string) gomap" where
  "expandDefinitions defs = defs"

text \<open>
  The scan state of \<open>populateAlphsDefs\<close>: the two maps, and \<open>comboCalls\<close>, which records
  the alphagrams the \<open>combinations\<close> callback was called with, in order (the callback is
  pure in the model, so the record is what makes the number of calls visible).
\<close>

record AlphsDefs =
  definitions :: "(string, string) gomap"
  alphagrams :: "(string, Alphagram) gomap"
  comboCalls :: "string list"

definition scanLine ::
  "(string \<Rightarrow> bool \<Rightarrow> 64 word) \<Rightarrow> LetterDistribution \<Rightarrow> AlphsDefs \<Rightarrow> string \<Rightarrow> AlphsDefs" where
  "scanLine combos dist st line =
     (case Fields line of
        [] \<Rightarrow> st
      | f0 # rest \<Rightarrow>
          (let word = ToUpper f0;
               definition = (if rest \<noteq> [] then Join rest '' '' else []);
               defs = addToDefinitions word definition (definitions st);
               alphagram = MakeAlphagram dist word
           in case map_of (alphagrams st) alphagram of
                None \<Rightarrow>
                  \<lparr>definitions = defs,
                   alphagrams = AList.update alphagram
                     \<lparr>words = [word], combinations = combos alphagram True,
                      alphagram = alphagram, wordCount = 0, uniqToLexSplit = 0,
                      updateToLex = 0\<rparr> (alphagrams st),
                   comboCalls = comboCalls st @ [alphagram]\<rparr>
              | Some alph \<Rightarrow>
                  \<lparr>definitions = defs,
                   alphagrams = AList.update alphagram
                     (alph\<lparr>words := words alph @ [word]\<rparr>) (alphagrams st),
                   comboCalls = comboCalls st\<rparr>))"

text \<open>
  The file argument is what \<open>os.Open\<close> gives: the lines of the file, or \<open>None\<close> when the
  file is missing or unreadable. The error of \<open>os.Open\<close> is dropped by the code, and a
  scanner over the nil file yields no line.
\<close>

definition populateAlphsDefs ::
  "string list option \<Rightarrow> (string \<Rightarrow> bool \<Rightarrow> 64 word) \<Rightarrow> LetterDistribution \<Rightarrow> AlphsDefs" where
  "populateAlphsDefs file combos dist =
     (let scanned = foldl (scanLine combos dist)
            \<lparr>definitions = [], alphagrams = [], comboCalls = []\<rparr>
            (case file of None \<Rightarrow> [] | Some ls \<Rightarrow> ls)
      in scanned\<lparr>definitions := expandDefinitions (definitions scanned)\<rparr>)"

text \<open>
  The values of the map, in the order of the association list. Go iterates the map in
  an unspecified order; the values are sorted right after, which removes the difference.
\<close>

definition alphaMapValues :: "(string, Alphagram) gomap \<Rightarrow> Alphagram list" where
  "alphaMapValues theMap = map snd theMap"

section \<open>Provenance symbols\<close>

definition findLexSymbols ::
  "string \<Rightarrow> LexiconInfo \<Rightarrow> LexiconInfo \<Rightarrow> FamilyName \<Rightarrow> LexiconInfo option \<Rightarrow> string" where
  "findLexSymbols word latestCSW latestTWL lexFamily priorLex =
     (let symbols = [];
          symbols =
            (case priorLex of
               None \<Rightarrow> symbols
             | Some p \<Rightarrow>
                 if \<not> FindWord (Dawg p) word \<and> \<not> Contains symbols LexiconUpdateSymbol
                 then symbols @ LexiconUpdateSymbol else symbols);
          symbols =
            (if lexFamily = FamilyCSW \<and> \<not> FindWord (Dawg latestTWL) word \<and>
                \<not> Contains symbols CSWOnlySymbol
             then symbols @ CSWOnlySymbol else symbols);
          symbols =
            (if lexFamily = FamilyTWL \<and> \<not> FindWord (Dawg latestCSW) word \<and>
                \<not> Contains symbols TWLOnlySymbol
             then symbols @ TWLOnlySymbol else symbols)
      in symbols)"

fun containsWordUniqueToLexSplit :: "string list \<Rightarrow> 8 word" where
  "containsWordUniqueToLexSplit [] = 0"
| "containsWordUniqueToLexSplit (symbols # rest) =
     (if Contains symbols ''$'' \<or> Contains symbols ''#'' then 1
      else containsWordUniqueToLexSplit rest)"

fun containsUpdateToLex :: "string list \<Rightarrow> 8 word" where
  "containsUpdateToLex [] = 0"
| "containsUpdateToLex (symbols # rest) =
     (if Contains symbols ''+'' then 1 else containsUpdateToLex rest)"

section \<open>The dataset\<close>

text \<open>
  The four tables of the SQLite file. Integer columns hold SQLite integers
  (\<^typ>\<open>int\<close>); a column that a migration added to an older dataset holds \<open>None\<close>
  (NULL) until it is backfilled. \<open>db_version\<close> is \<open>None\<close> while the table does not exist.
  \<open>ddl\<close> lists the schema statements applied to the file, oldest first.
\<close>

record AlphRow =
  a_probability :: int
  a_alphagram :: string
  a_length :: int
  a_combinations :: int
  a_num_anagrams :: "int option"
  a_point_value :: "int option"
  a_num_vowels :: "int option"
  a_contains_word_uniq_to_lex_split :: "int option"
  a_contains_update_to_lex :: "int option"
  a_difficulty :: "int option"

record WordRow =
  w_word :: string
  w_alphagram :: string
  w_lexicon_symbols :: string
  w_definition :: string
  w_front_hooks :: string
  w_back_hooks :: string
  w_inner_front_hook :: int
  w_inner_back_hook :: int

record db =
  t_alphagrams :: "AlphRow list"
  t_words :: "WordRow list"
  t_deletedwords :: "(string \<times> int) list"
  t_db_version :: "int list option"
  ddl :: "string list"

definition no_tables :: db where
  "no_tables = \<lparr>t_alphagrams = [], t_words = [], t_deletedwords = [], t_db_version = None,
     ddl = []\<rparr>"

text \<open>
  The calls on the database that the package issues. Each may fail; which ones fail is
  given by the environment as a predicate on calls.
\<close>

datatype call =
    Open
  | CreateTables
  | Begin
  | Commit
  | PrepareAlphInsert
  | PrepareWordInsert
  | PrepareDeletedInsert
  | InsertWord WordRow
  | InsertAlphagram AlphRow
  | InsertDeletedWord string int
  | InsertVersion int
  | SelectVersion
  | CreateVersionTable
  | UpdateVersion int
  | AlterV2
  | QueryV2
  | PrepareUpdate
  | UpdateAlphV2 int int int string
  | CreateLengthIndex
  | AlterV4
  | QueryV4
  | UpdateAlphV4 int int string
  | AlterV5
  | LoadDifficulty
  | CreateDeletedWords

type_synonym faults = "call \<Rightarrow> bool"

text \<open>
  How the process ended early: \<open>log.Fatal\<close> (\<open>os.Exit\<close>), a runtime panic, or the early
  return of \<open>CreateLexiconDatabase\<close> when \<open>createSqliteDb\<close> refuses to overwrite.
\<close>

datatype exit = Fatal | Panic | Refused

text \<open>
  The state of a run: whether the database file exists, its committed content
  (\<open>disk\<close>), the content seen inside the open transaction (\<open>tx\<close>), the calls issued so
  far, and how the run ended if it has (\<open>halted\<close>). When the process ends inside a
  transaction, \<open>disk\<close> is what remains.
\<close>

record state =
  file_exists :: bool
  disk :: db
  tx :: "db option"
  trace :: "call list"
  halted :: "exit option"

text \<open>A statement run on the connection itself: it takes effect on the file at once.\<close>

definition db_Exec :: "faults \<Rightarrow> call \<Rightarrow> (db \<Rightarrow> db) \<Rightarrow> state \<Rightarrow> bool \<times> state" where
  "db_Exec F c eff s =
     (if F c then (True, s\<lparr>trace := trace s @ [c]\<rparr>)
      else (False, s\<lparr>disk := eff (disk s), trace := trace s @ [c]\<rparr>))"

text \<open>A statement prepared on the transaction: it takes effect inside the transaction.\<close>

definition tx_Exec :: "faults \<Rightarrow> call \<Rightarrow> (db \<Rightarrow> db) \<Rightarrow> state \<Rightarrow> bool \<times> state" where
  "tx_Exec F c eff s =
     (if F c then (True, s\<lparr>trace := trace s @ [c]\<rparr>)
      else (False, s\<lparr>tx := map_option eff (tx s), trace := trace s @ [c]\<rparr>))"

text \<open>A call with no effect on the content (\<open>sql.Open\<close>, \<open>Prepare\<close>, a query).\<close>

definition db_Call :: "faults \<Rightarrow> call \<Rightarrow> state \<Rightarrow> bool \<times> state" where
  "db_Call F c s = (F c, s\<lparr>trace := trace s @ [c]\<rparr>)"

definition db_Begin :: "faults \<Rightarrow> state \<Rightarrow> bool \<times> state" where
  "db_Begin F s =
     (if F Begin then (True, s\<lparr>trace := trace s @ [Begin]\<rparr>)
      else (False, s\<lparr>tx := Some (disk s), trace := trace s @ [Begin]\<rparr>))"

text \<open>
  \<open>tx.Commit()\<close>. The code drops its result at every call, so the run goes on when the
  commit fails; a failed commit leaves the file as it was and ends the transaction.
\<close>

definition tx_Commit :: "faults \<Rightarrow> state \<Rightarrow> state" where
  "tx_Commit F s =
     (if F Commit then s\<lparr>tx := None, trace := trace s @ [Commit]\<rparr>
      else s\<lparr>disk := (case tx s of None \<Rightarrow> disk s | Some d \<Rightarrow> d), tx := None,
             trace := trace s @ [Commit]\<rparr>)"

text \<open>\<open>exitIfError(err)\<close>, and the places that call \<open>log.Fatal\<close> on an error themselves.\<close>

definition exitIfError :: "bool \<times> state \<Rightarrow> state" where
  "exitIfError r = (case r of (err, s) \<Rightarrow> if err then s\<lparr>halted := Some Fatal\<rparr> else s)"

text \<open>The statements of a function in sequence; nothing runs once the process has ended.\<close>

fun run :: "(state \<Rightarrow> state) list \<Rightarrow> state \<Rightarrow> state" where
  "run [] s = s"
| "run (f # fs) s = (if halted s = None then run fs (f s) else s)"

section \<open>Building a dataset\<close>

definition CurrentVersion :: int where
  "CurrentVersion = 6"

definition schemaV6 :: "string list" where
  "schemaV6 = [''alphagrams'', ''words'', ''deletedwords'', ''alpha_index'', ''prob_index'',
     ''word_index'', ''alphagram_index'', ''length_index'', ''difficulty_index'',
     ''num_anagrams_index'', ''point_value_index'', ''num_vowels_index'', ''uniq_word_index'',
     ''update_word_index'', ''db_version'']"

text \<open>
  \<open>createSqliteDb\<close>: refuses when the file exists and \<open>quitIfExists\<close> is set; otherwise
  removes the file and creates the empty tables.
\<close>

definition createSqliteDb :: "faults \<Rightarrow> bool \<Rightarrow> state \<Rightarrow> state" where
  "createSqliteDb F quitIfExists s =
     (if quitIfExists \<and> file_exists s then s\<lparr>halted := Some Refused\<rparr>
      else run
        [\<lambda>s. s\<lparr>file_exists := False, disk := no_tables\<rparr>,
         \<lambda>s. exitIfError (db_Call F Open s),
         \<lambda>s. exitIfError (db_Exec F CreateTables
                (\<lambda>d. d\<lparr>t_db_version := Some [], ddl := schemaV6\<rparr>) (s\<lparr>file_exists := True\<rparr>))]
        s)"

definition sortedHooks :: "string \<Rightarrow> LetterDistribution \<Rightarrow> string" where
  "sortedHooks hooks dist = MakeAlphagram dist hooks"

definition lookupDef :: "(string, string) gomap \<Rightarrow> string \<Rightarrow> string" where
  "lookupDef defs word = (case map_of defs word of None \<Rightarrow> [] | Some d \<Rightarrow> d)"

text \<open>The row that the inner loop of \<open>CreateLexiconDatabase\<close> hands to \<open>wordStmt.Exec\<close>.\<close>

definition wordRow ::
  "Gaddag \<Rightarrow> LexiconInfo \<Rightarrow> (string, string) gomap \<Rightarrow> LexiconInfo \<Rightarrow> LexiconInfo \<Rightarrow>
   FamilyName \<Rightarrow> LexiconInfo option \<Rightarrow> Alphagram \<Rightarrow> string \<Rightarrow> WordRow" where
  "wordRow g li defs latestCSW latestTWL lexFamily priorLex alph word =
     (let backHooks = sortedHooks (FindHooks g (Dawg li) word BackHooks) (LetterDist li);
          frontHooks = sortedHooks (FindHooks g (RDawg li) word FrontHooks) (LetterDist li);
          backInnerHook = (if FindInnerHook g (Dawg li) word BackInnerHook then 1 else 0);
          frontInnerHook = (if FindInnerHook g (Dawg li) word FrontInnerHook then 1 else 0)
      in \<lparr>w_word = word, w_alphagram = alphagram alph,
          w_lexicon_symbols = findLexSymbols word latestCSW latestTWL lexFamily priorLex,
          w_definition = lookupDef defs word,
          w_front_hooks = frontHooks, w_back_hooks = backHooks,
          w_inner_front_hook = frontInnerHook, w_inner_back_hook = backInnerHook\<rparr>)"

text \<open>
  The inner loop: one insert per member word. The result of \<open>wordStmt.Exec\<close> is not
  looked at.
\<close>

definition insertWords :: "faults \<Rightarrow> WordRow list \<Rightarrow> state \<Rightarrow> state" where
  "insertWords F rows s =
     foldl (\<lambda>s r. snd (tx_Exec F (InsertWord r) (\<lambda>d. d\<lparr>t_words := t_words d @ [r]\<rparr>) s)) s rows"

text \<open>The row that the outer loop hands to \<open>alphStmt.Exec\<close>, given the value of \<open>probs[wl]\<close>.\<close>

definition alphRow :: "LexiconInfo \<Rightarrow> Alphagram \<Rightarrow> string list \<Rightarrow> 32 word \<Rightarrow> AlphRow" where
  "alphRow li alph lexSymbolsList prob =
     \<lparr>a_probability = uint prob, a_alphagram = alphagram alph,
      a_length = int (length (alphagram alph)),
      a_combinations = uint (combinations alph),
      a_num_anagrams = Some (int (length (words alph))),
      a_point_value = Some (uint (pointValue alph (LetterDist li))),
      a_num_vowels = Some (uint (numVowels alph (LetterDist li))),
      a_contains_word_uniq_to_lex_split = Some (uint (containsWordUniqueToLexSplit lexSymbolsList)),
      a_contains_update_to_lex = Some (uint (containsUpdateToLex lexSymbolsList)),
      a_difficulty = Some (alphagramDifficulty (alphagram alph) (Difficulties li))\<rparr>"

text \<open>
  The outer loop over the sorted classes. \<open>probs\<close> is the array \<open>[16]uint32\<close>; the
  increment is guarded by \<open>wl <= 15\<close>, the read \<open>probs[wl]\<close> in the call of
  \<open>alphStmt.Exec\<close> is not, and Go panics on an index out of range.
\<close>

fun insertAlphagrams ::
  "faults \<Rightarrow> Gaddag \<Rightarrow> LexiconInfo \<Rightarrow> (string, string) gomap \<Rightarrow> LexiconInfo \<Rightarrow> LexiconInfo \<Rightarrow>
   FamilyName \<Rightarrow> LexiconInfo option \<Rightarrow> Alphagram list \<Rightarrow> 32 word list \<Rightarrow> state \<Rightarrow> state" where
  "insertAlphagrams F g li defs latestCSW latestTWL lexFamily priorLex [] probs s = s"
| "insertAlphagrams F g li defs latestCSW latestTWL lexFamily priorLex (alph # rest) probs s =
     (if halted s \<noteq> None then s
      else
        let wl = length (alphagram alph);
            probs = (if wl \<le> 15 then probs[wl := probs ! wl + 1] else probs);
            s = insertWords F
                  (map (wordRow g li defs latestCSW latestTWL lexFamily priorLex alph) (words alph)) s;
            lexSymbolsList =
              map (\<lambda>word. findLexSymbols word latestCSW latestTWL lexFamily priorLex) (words alph)
        in if wl < length probs then
             let row = alphRow li alph lexSymbolsList (probs ! wl);
                 s = exitIfError (tx_Exec F (InsertAlphagram row)
                       (\<lambda>d. d\<lparr>t_alphagrams := t_alphagrams d @ [row]\<rparr>) s)
             in insertAlphagrams F g li defs latestCSW latestTWL lexFamily priorLex rest probs s
           else s\<lparr>halted := Some Panic\<rparr>)"

text \<open>
  The words of the prior edition's list that the current dawg does not accept, as
  collected by the loop over the prior edition's definitions.
\<close>

definition findDeletedWords ::
  "(string \<Rightarrow> string list option) \<Rightarrow> LexiconInfo \<Rightarrow> LexiconInfo option \<Rightarrow> string list" where
  "findDeletedWords fs li priorLex =
     (case priorLex of
        None \<Rightarrow> []
      | Some p \<Rightarrow>
          filter (\<lambda>word. \<not> FindWord (Dawg li) word)
            (map fst (definitions
               (populateAlphsDefs (fs (LexiconFilename p)) (Combinations p) (LetterDist p)))))"

definition insertDeletedWords :: "faults \<Rightarrow> string list \<Rightarrow> state \<Rightarrow> state" where
  "insertDeletedWords F deletedWords s =
     (if deletedWords \<noteq> [] then
        run
          ([\<lambda>s. exitIfError (db_Begin F s),
            \<lambda>s. exitIfError (db_Call F PrepareDeletedInsert s)] @
           map (\<lambda>word s.
                  exitIfError (tx_Exec F (InsertDeletedWord word (int (length word)))
                    (\<lambda>d. d\<lparr>t_deletedwords := t_deletedwords d @ [(word, int (length word))]\<rparr>) s))
             (sort deletedWords) @
           [tx_Commit F])
          s
      else s)"

text \<open>
  \<open>CreateLexiconDatabase\<close>. \<open>fs\<close> maps a file name to the lines of the file. The debug
  and info logging, \<open>logWordLengths\<close> included, is left out.
\<close>

definition CreateLexiconDatabase ::
  "faults \<Rightarrow> (string \<Rightarrow> string list option) \<Rightarrow> Gaddag \<Rightarrow> string \<Rightarrow> LexiconInfo \<Rightarrow> LexiconMap \<Rightarrow>
   bool \<Rightarrow> state \<Rightarrow> state" where
  "CreateLexiconDatabase F fs g lexiconName lexiconInfo lexMap quitIfExists s0 =
     (let ad = populateAlphsDefs (fs (LexiconFilename lexiconInfo)) (Combinations lexiconInfo)
                 (LetterDist lexiconInfo);
          alphs = sortAlphByCombos (alphaMapValues (alphagrams ad));
          probs = replicate 16 (0 :: 32 word)
      in run
        [createSqliteDb F quitIfExists,
         \<lambda>s. exitIfError (db_Call F Open s),
         \<lambda>s. exitIfError (db_Begin F s),
         \<lambda>s. exitIfError (db_Call F PrepareAlphInsert s),
         \<lambda>s. exitIfError (db_Call F PrepareWordInsert s),
         \<lambda>s. (case familyName lexMap lexiconName of
                None \<Rightarrow> s\<lparr>halted := Some Fatal\<rparr>
              | Some lexFamily \<Rightarrow>
                  (let latestCSW = newestInFamily lexMap FamilyCSW;
                       latestTWL = newestInFamily lexMap FamilyTWL;
                       priorLex = priorLexicon lexMap lexFamily lexiconName
                   in run
                     [insertAlphagrams F g lexiconInfo (definitions ad) latestCSW latestTWL
                        lexFamily priorLex alphs probs,
                      tx_Commit F,
                      insertDeletedWords F (findDeletedWords fs lexiconInfo priorLex),
                      \<lambda>s. exitIfError (db_Exec F (InsertVersion CurrentVersion)
                             (\<lambda>d. d\<lparr>t_db_version :=
                                map_option (\<lambda>vs. vs @ [CurrentVersion]) (t_db_version d)\<rparr>) s)]
                     s))]
        s0)"

section \<open>Migrating a dataset\<close>

definition setVersion :: "int \<Rightarrow> db \<Rightarrow> db" where
  "setVersion v d = d\<lparr>t_db_version := map_option (map (\<lambda>_. v)) (t_db_version d)\<rparr>"

text \<open>\<open>UPDATE db_version SET version = v\<close>, followed by \<open>exitIfError\<close>.\<close>

definition updateVersion :: "faults \<Rightarrow> int \<Rightarrow> state \<Rightarrow> state" where
  "updateVersion F v s = exitIfError (db_Exec F (UpdateVersion v) (setVersion v) s)"

definition mkAlphagram :: "string \<Rightarrow> 8 word \<Rightarrow> 8 word \<Rightarrow> 8 word \<Rightarrow> Alphagram" where
  "mkAlphagram alph wc uniq upd =
     \<lparr>words = [], combinations = 0, alphagram = alph, wordCount = wc, uniqToLexSplit = uniq,
      updateToLex = upd\<rparr>"

text \<open>
  The result of the grouped join of \<open>migrateToV2\<close>: for every alphagram of the words
  table that the alphagrams table has too, the number of joined rows. Reading a row of
  a query result (\<open>rows.Scan\<close>) is taken to succeed.
\<close>

definition queryV2 :: "db \<Rightarrow> (string \<times> int) list" where
  "queryV2 d =
     filter (\<lambda>(alph, ct). ct > 0)
       (map (\<lambda>alph. (alph,
               int (length (filter (\<lambda>w. w_alphagram w = alph) (t_words d)) *
                    length (filter (\<lambda>a. a_alphagram a = alph) (t_alphagrams d)))))
          (sort (remdups (map w_alphagram (t_words d)))))"

definition updateV2 :: "int \<Rightarrow> int \<Rightarrow> int \<Rightarrow> string \<Rightarrow> db \<Rightarrow> db" where
  "updateV2 wc pv nv alph d =
     d\<lparr>t_alphagrams :=
         map (\<lambda>a. if a_alphagram a = alph
                  then a\<lparr>a_num_anagrams := Some wc, a_point_value := Some pv,
                         a_num_vowels := Some nv\<rparr>
                  else a)
           (t_alphagrams d)\<rparr>"

definition migrateToV2 :: "faults \<Rightarrow> LetterDistribution \<Rightarrow> state \<Rightarrow> state" where
  "migrateToV2 F dist s0 =
     run
       [\<lambda>s. exitIfError (db_Exec F AlterV2
               (\<lambda>d. d\<lparr>t_alphagrams :=
                         map (\<lambda>a. a\<lparr>a_num_anagrams := None, a_point_value := None,
                                    a_num_vowels := None\<rparr>) (t_alphagrams d),
                       ddl := ddl d @ [''num_anagrams'', ''point_value'', ''num_vowels'',
                         ''num_anagrams_index'', ''point_value_index'', ''num_vowels_index'']\<rparr>) s),
        \<lambda>s. exitIfError (db_Call F QueryV2 s),
        \<lambda>s. (let alphs =
                    map (\<lambda>(alph, wordCount). mkAlphagram alph (word_of_int wordCount) 0 0)
                      (queryV2 (disk s))
              in run
                ([\<lambda>s. exitIfError (db_Begin F s),
                  \<lambda>s. exitIfError (db_Call F PrepareUpdate s)] @
                 map (\<lambda>alph s.
                        (let wc = uint (wordCount alph); pv = uint (pointValue alph dist);
                             nv = uint (numVowels alph dist)
                         in exitIfError (tx_Exec F (UpdateAlphV2 wc pv nv (alphagram alph))
                              (updateV2 wc pv nv (alphagram alph)) s)))
                   alphs @
                 [tx_Commit F,
                  updateVersion F 2])
                s)]
       s0"

definition migrateToV3 :: "faults \<Rightarrow> state \<Rightarrow> state" where
  "migrateToV3 F s0 =
     run
       [\<lambda>s. exitIfError (db_Exec F CreateLengthIndex (\<lambda>d. d\<lparr>ddl := ddl d @ [''length_index'']\<rparr>) s),
        updateVersion F 3]
       s0"

text \<open>
  The loop of \<open>migrateToV4\<close> over the word rows in alphagram order: a class is closed
  when the alphagram changes, and the last one after the loop.
\<close>

fun groupV4 ::
  "(string \<times> string \<times> string) list \<Rightarrow> string \<Rightarrow> string list \<Rightarrow> Alphagram list \<Rightarrow> Alphagram list" where
  "groupV4 [] lastAlph lastLexSymbolsList alphs =
     alphs @
     [mkAlphagram lastAlph 0 (containsWordUniqueToLexSplit lastLexSymbolsList)
        (containsUpdateToLex lastLexSymbolsList)]"
| "groupV4 ((word, alph, lexiconSymbols) # rows) lastAlph lastLexSymbolsList alphs =
     (if alph \<noteq> lastAlph \<and> lastAlph \<noteq> [] then
        groupV4 rows alph [lexiconSymbols]
          (alphs @
           [mkAlphagram lastAlph 0 (containsWordUniqueToLexSplit lastLexSymbolsList)
              (containsUpdateToLex lastLexSymbolsList)])
      else groupV4 rows alph (lastLexSymbolsList @ [lexiconSymbols]) alphs)"

definition queryV4 :: "db \<Rightarrow> (string \<times> string \<times> string) list" where
  "queryV4 d =
     map (\<lambda>w. (w_word w, w_alphagram w, w_lexicon_symbols w)) (sort_key w_alphagram (t_words d))"

definition updateV4 :: "int \<Rightarrow> int \<Rightarrow> string \<Rightarrow> db \<Rightarrow> db" where
  "updateV4 uniq upd alph d =
     d\<lparr>t_alphagrams :=
         map (\<lambda>a. if a_alphagram a = alph
                  then a\<lparr>a_contains_word_uniq_to_lex_split := Some uniq,
                         a_contains_update_to_lex := Some upd\<rparr>
                  else a)
           (t_alphagrams d)\<rparr>"

definition migrateToV4 :: "faults \<Rightarrow> state \<Rightarrow> state" where
  "migrateToV4 F s0 =
     run
       [\<lambda>s. exitIfError (db_Exec F AlterV4
               (\<lambda>d. d\<lparr>t_alphagrams :=
                         map (\<lambda>a. a\<lparr>a_contains_word_uniq_to_lex_split := None,
                                    a_contains_update_to_lex := None\<rparr>) (t_alphagrams d),
                       ddl := ddl d @ [''contains_word_uniq_to_lex_split'',
                         ''contains_update_to_lex'', ''uniq_word_index'', ''update_word_index'']\<rparr>) s),
        \<lambda>s. exitIfError (db_Call F QueryV4 s),
        \<lambda>s. (let alphs = groupV4 (queryV4 (disk s)) [] [] []
              in run
                ([\<lambda>s. exitIfError (db_Begin F s),
                  \<lambda>s. exitIfError (db_Call F PrepareUpdate s)] @
                 map (\<lambda>alph s.
                        (let uniq = uint (uniqToLexSplit alph); upd = uint (updateToLex alph)
                         in exitIfError (tx_Exec F (UpdateAlphV4 uniq upd (alphagram alph))
                              (updateV4 uniq upd (alphagram alph)) s)))
                   alphs @
                 [tx_Commit F,
                  updateVersion F 4])
                s)]
       s0"

text \<open>
  Modelled from the spec: \<open>loadDifficulty\<close> is a function of the package outside the
  sources at hand. Per the spec a transition backfills its new column from the same
  statistics as the build; it is one fallible step here.
\<close>

definition loadDifficulty :: "faults \<Rightarrow> LexiconInfo \<Rightarrow> state \<Rightarrow> state" where
  "loadDifficulty F lexiconInfo s =
     exitIfError (db_Exec F LoadDifficulty
       (\<lambda>d. d\<lparr>t_alphagrams :=
                 map (\<lambda>a. a\<lparr>a_difficulty :=
                            Some (alphagramDifficulty (a_alphagram a) (Difficulties lexiconInfo))\<rparr>)
                   (t_alphagrams d)\<rparr>) s)"

definition migrateToV5 :: "faults \<Rightarrow> LexiconInfo \<Rightarrow> state \<Rightarrow> state" where
  "migrateToV5 F lexiconInfo s0 =
     run
       [\<lambda>s. exitIfError (db_Exec F AlterV5
               (\<lambda>d. d\<lparr>t_alphagrams := map (\<lambda>a. a\<lparr>a_difficulty := None\<rparr>) (t_alphagrams d),
                       ddl := ddl d @ [''difficulty'', ''difficulty_index'']\<rparr>) s),
        loadDifficulty F lexiconInfo,
        updateVersion F 5]
       s0"

definition migrateToV6 :: "faults \<Rightarrow> state \<Rightarrow> state" where
  "migrateToV6 F s0 =
     run
       [\<lambda>s. exitIfError (db_Exec F CreateDeletedWords
               (\<lambda>d. d\<lparr>t_deletedwords := [], ddl := ddl d @ [''deletedwords'']\<rparr>) s),
        updateVersion F 6]
       s0"

text \<open>
  The chain of \<open>if version == k\<close> at the end of \<open>MigrateLexiconDatabase\<close>; \<open>version\<close> is
  the local variable, which no transition writes.
\<close>

definition migrateFrom :: "faults \<Rightarrow> LexiconInfo \<Rightarrow> int \<Rightarrow> state \<Rightarrow> state" where
  "migrateFrom F lexiconInfo version s0 =
     run
       [\<lambda>s. if version = 1 then migrateToV2 F (LetterDist lexiconInfo) s else s,
        \<lambda>s. if version = 2 then migrateToV3 F s else s,
        \<lambda>s. if version = 3 then migrateToV4 F s else s,
        \<lambda>s. if version = 4 then migrateToV5 F lexiconInfo s else s,
        \<lambda>s. if version = 5 then migrateToV6 F s else s]
       s0"

text \<open>
  \<open>MigrateLexiconDatabase\<close>. The query of the version fails with some other error
  when the environment says so, with \<open>sql.ErrNoRows\<close> when the table is empty and with
  \<open>no such table\<close> when it does not exist; otherwise it yields the first row.
\<close>

definition MigrateLexiconDatabase :: "faults \<Rightarrow> LexiconInfo \<Rightarrow> state \<Rightarrow> state" where
  "MigrateLexiconDatabase F lexiconInfo s0 =
     run
       [\<lambda>s. exitIfError (db_Call F Open s),
        \<lambda>s. (case db_Call F SelectVersion s of
               (otherError, s) \<Rightarrow>
                 if otherError then s\<lparr>halted := Some Fatal\<rparr>
                 else
                   (case t_db_version (disk s) of
                      Some [] \<Rightarrow> s\<lparr>halted := Some Fatal\<rparr>
                    | None \<Rightarrow>
                        run
                          [\<lambda>s. exitIfError (db_Exec F CreateVersionTable
                                  (\<lambda>d. d\<lparr>t_db_version := Some [], ddl := ddl d @ [''db_version'']\<rparr>) s),
                           \<lambda>s. exitIfError (db_Exec F (InsertVersion 1)
                                  (\<lambda>d. d\<lparr>t_db_version :=
                                     map_option (\<lambda>vs. vs @ [1]) (t_db_version d)\<rparr>) s),
                           migrateFrom F lexiconInfo 1]
                          s
                    | Some (version # _) \<Rightarrow> migrateFrom F lexiconInfo version s))]
       s0"

section \<open>Notions used to state the properties\<close>

text \<open>
  The words of a word list in file order: the first field of every non-blank line, in
  upper case.
\<close>

definition lineWord :: "string \<Rightarrow> string option" where
  "lineWord line = (case Fields line of [] \<Rightarrow> None | f0 # rest \<Rightarrow> Some (ToUpper f0))"

definition fileWords :: "string list option \<Rightarrow> string list" where
  "fileWords file = List.map_filter lineWord (case file of None \<Rightarrow> [] | Some ls \<Rightarrow> ls)"

text \<open>The state of the scan after the given lines, and what holds of it.\<close>

definition scanned :: "(string \<Rightarrow> bool \<Rightarrow> 64 word) \<Rightarrow> LetterDistribution \<Rightarrow> string list \<Rightarrow> AlphsDefs" where
  "scanned combos dist ls = foldl (scanLine combos dist) \<lparr>definitions = [], alphagrams = [], comboCalls = []\<rparr> ls"

definition scan_inv :: "(string \<Rightarrow> bool \<Rightarrow> 64 word) \<Rightarrow> LetterDistribution \<Rightarrow> string list \<Rightarrow> AlphsDefs \<Rightarrow> bool" where
  "scan_inv combos dist ws st =
     (distinct (map fst (alphagrams st)) \<and>
      set (map fst (alphagrams st)) = MakeAlphagram dist ` set ws \<and>
      comboCalls st = map fst (alphagrams st) \<and>
      (\<forall>k a. map_of (alphagrams st) k = Some a \<longrightarrow>
         alphagram a = k \<and> combinations a = combos k True \<and>
         words a = filter (\<lambda>w. MakeAlphagram dist w = k) ws) \<and>
      distinct (map fst (definitions st)) \<and>
      set (map fst (definitions st)) = set ws)"

text \<open>The order that \<open>Less\<close> induces, read on classes and on the rows written for them.\<close>

definition keyLe :: "Alphagram \<Rightarrow> Alphagram \<Rightarrow> bool" where
  "keyLe a b = (combinations a > combinations b \<or>
     (combinations a = combinations b \<and> alphagram a \<le> alphagram b))"

definition rowBefore :: "AlphRow \<Rightarrow> AlphRow \<Rightarrow> bool" where
  "rowBefore r r' =
     (a_combinations r > a_combinations r' \<or>
      (a_combinations r = a_combinations r' \<and> a_alphagram r < a_alphagram r'))"

text \<open>
  The content that the loops of the build add to the dataset when no call fails: the
  rows of the classes in order, each with the value of its length's counter after the
  increment.
\<close>

definition addRows :: "WordRow list \<Rightarrow> AlphRow list \<Rightarrow> db \<Rightarrow> db" where
  "addRows ws rs d = d\<lparr>t_words := t_words d @ ws, t_alphagrams := t_alphagrams d @ rs\<rparr>"

fun rankedRows :: "LexiconInfo \<Rightarrow> (string \<Rightarrow> string) \<Rightarrow> Alphagram list \<Rightarrow> 32 word list \<Rightarrow> AlphRow list" where
  "rankedRows li symbolsOf [] probs = []"
| "rankedRows li symbolsOf (a # rest) probs =
     (let wl = length (alphagram a); probs' = probs[wl := probs ! wl + 1]
      in alphRow li a (map symbolsOf (words a)) (probs' ! wl) # rankedRows li symbolsOf rest probs')"

definition freshDb :: db where
  "freshDb = \<lparr>t_alphagrams = [], t_words = [], t_deletedwords = [], t_db_version = Some [],
     ddl = schemaV6\<rparr>"

text \<open>
  The schema objects that the transition from version \<open>v\<close> adds, and what a transition
  to version \<open>v\<close> leaves when no call fails: the version, and the schema extended by the
  objects of that one transition.
\<close>

definition transitionDdl :: "int \<Rightarrow> string list" where
  "transitionDdl v =
     (if v = 1 then [''num_anagrams'', ''point_value'', ''num_vowels'', ''num_anagrams_index'',
        ''point_value_index'', ''num_vowels_index'']
      else if v = 2 then [''length_index'']
      else if v = 3 then [''contains_word_uniq_to_lex_split'', ''contains_update_to_lex'',
        ''uniq_word_index'', ''update_word_index'']
      else if v = 4 then [''difficulty'', ''difficulty_index'']
      else if v = 5 then [''deletedwords'']
      else [])"

definition migrated :: "int \<Rightarrow> state \<Rightarrow> state \<Rightarrow> bool" where
  "migrated v s s' =
     (halted s' = None \<and>
      t_db_version (disk s') = map_option (map (\<lambda>_. v)) (t_db_version (disk s)) \<and>
      ddl (disk s') = ddl (disk s) @ transitionDdl (v - 1))"

text \<open>
  The order of the persistence steps of a build, as an automaton over the calls issued:
  set-up, the main transaction, after its commit, the transaction of the deleted words
  (entered only when there are deleted words), after its commit, and after the version
  stamp. Alphagram and word inserts are accepted only inside the main transaction,
  deleted-word inserts only inside the second one, the version stamp only after the
  commits, and nothing after the stamp. \<open>phaseAfter\<close> is \<open>None\<close> for a sequence of calls out
  of this order.
\<close>

datatype phase = Setup | MainTx | MainDone | DeletedTx | DeletedDone | Stamped

definition phaseStep :: "bool \<Rightarrow> phase \<Rightarrow> call \<Rightarrow> phase option" where
  "phaseStep hasDeleted p c =
     (case p of
        Setup \<Rightarrow>
          (case c of Open \<Rightarrow> Some Setup | CreateTables \<Rightarrow> Some Setup | Begin \<Rightarrow> Some MainTx
           | _ \<Rightarrow> None)
      | MainTx \<Rightarrow>
          (case c of PrepareAlphInsert \<Rightarrow> Some MainTx | PrepareWordInsert \<Rightarrow> Some MainTx
           | InsertWord r \<Rightarrow> Some MainTx | InsertAlphagram r \<Rightarrow> Some MainTx
           | Commit \<Rightarrow> Some MainDone | _ \<Rightarrow> None)
      | MainDone \<Rightarrow>
          (case c of Begin \<Rightarrow> (if hasDeleted then Some DeletedTx else None)
           | InsertVersion v \<Rightarrow> (if hasDeleted then None else Some Stamped)
           | _ \<Rightarrow> None)
      | DeletedTx \<Rightarrow>
          (case c of PrepareDeletedInsert \<Rightarrow> Some DeletedTx
           | InsertDeletedWord w n \<Rightarrow> Some DeletedTx | Commit \<Rightarrow> Some DeletedDone
           | _ \<Rightarrow> None)
      | DeletedDone \<Rightarrow> (case c of InsertVersion v \<Rightarrow> Some Stamped | _ \<Rightarrow> None)
      | Stamped \<Rightarrow> None)"

fun phaseAfter :: "bool \<Rightarrow> phase \<Rightarrow> call list \<Rightarrow> phase option" where
  "phaseAfter hasDeleted p [] = Some p"
| "phaseAfter hasDeleted p (c # cs) =
     (case phaseStep hasDeleted p c of None \<Rightarrow> None | Some q \<Rightarrow> phaseAfter hasDeleted q cs)"

text \<open>
  A state whose calls so far are in order, and have reached phase \<open>p\<close> unless the run has
  ended; a statement that keeps the calls in order and moves from one phase to another.
\<close>

definition reached :: "bool \<Rightarrow> phase \<Rightarrow> state \<Rightarrow> bool" where
  "reached hasDeleted p s =
     ((\<exists>q. phaseAfter hasDeleted Setup (trace s) = Some q) \<and>
      (halted s = None \<longrightarrow> phaseAfter hasDeleted Setup (trace s) = Some p))"

definition moves :: "bool \<Rightarrow> phase \<Rightarrow> (state \<Rightarrow> state) \<Rightarrow> phase \<Rightarrow> bool" where
  "moves hasDeleted p f p' =
     (\<forall>s. reached hasDeleted p s \<and> halted s = None \<longrightarrow> reached hasDeleted p' (f s))"

text \<open>
  The rows that the calls issued so far have written: those of the inserts that did not
  fail, in the order of the calls. \<open>view\<close> is the content that a statement sees, inside the
  open transaction if there is one.
\<close>

definition alphagramsWritten :: "faults \<Rightarrow> call list \<Rightarrow> AlphRow list" where
  "alphagramsWritten F t =
     List.map_filter
       (\<lambda>c. case c of InsertAlphagram r \<Rightarrow> (if F c then None else Some r) | _ \<Rightarrow> None) t"

definition wordsWritten :: "faults \<Rightarrow> call list \<Rightarrow> WordRow list" where
  "wordsWritten F t =
     List.map_filter
       (\<lambda>c. case c of InsertWord r \<Rightarrow> (if F c then None else Some r) | _ \<Rightarrow> None) t"

definition deletedWritten :: "faults \<Rightarrow> call list \<Rightarrow> (string \<times> int) list" where
  "deletedWritten F t =
     List.map_filter
       (\<lambda>c. case c of InsertDeletedWord w n \<Rightarrow> (if F c then None else Some (w, n)) | _ \<Rightarrow> None) t"









section \<open>Example inputs\<close>

text \<open>A small environment on which the functions above are evaluated.\<close>

definition exDist :: LetterDistribution where
  "exDist = \<lparr>PointValues = (\<lambda>c. if c \<in> set ''QXZ'' then 10 else 1), Vowels = ''AEIOU'',
     MakeAlphagram = sort\<rparr>"

definition exCombos :: "string \<Rightarrow> bool \<Rightarrow> 64 word" where
  "exCombos a norm = (if CHR ''X'' \<in> set a then 2 else 7)"

definition exLexicon :: "string \<Rightarrow> string list \<Rightarrow> LexiconInfo" where
  "exLexicon file ws =
     \<lparr>LexiconFilename = file, Combinations = exCombos, LetterDist = exDist, Dawg = set ws,
      RDawg = set (map rev ws), Difficulties = (\<lambda>a. int (length a))\<rparr>"

definition exFs :: "string \<Rightarrow> string list option" where
  "exFs name =
     (if name = ''new.txt'' then
        Some [''tea a drink'', ''eat to  consume'', [], ''ax'', ''zax a tool'', ''ate'', ''tea again'']
      else if name = ''old.txt'' then Some [''ax'', ''eat'', ''quiz a test'', ''tae'']
      else if name = ''big.txt'' then Some [''ax'', ''abcdefghijklmnop'']
      else if name = ''long.txt'' then Some [''tea'', ''abcdefghijklmnox'']
      else None)"

definition exGaddag :: Gaddag where
  "exGaddag = \<lparr>FindHooks = (\<lambda>d w t. (if t = BackHooks \<and> w = ''AX'' then ''E'' else [])),
     FindInnerHook = (\<lambda>d w t. False)\<rparr>"

definition exNew :: LexiconInfo where
  "exNew = exLexicon ''new.txt'' [''TEA'', ''EAT'', ''AX'', ''ZAX'', ''ATE'']"

definition exOld :: LexiconInfo where
  "exOld = exLexicon ''old.txt'' [''AX'', ''EAT'', ''QUIZ'', ''TAE'']"

definition exTWL :: LexiconInfo where
  "exTWL = exLexicon ''twl.txt'' [''AX'', ''EAT'', ''TEA'', ''ATE'']"

definition exBig :: LexiconInfo where
  "exBig = exLexicon ''big.txt'' [''AX'', ''ABCDEFGHIJKLMNOP'']"

definition exLong :: LexiconInfo where
  "exLong = exLexicon ''long.txt'' [''TEA'', ''ABCDEFGHIJKLMNOX'']"

definition exMissing :: LexiconInfo where
  "exMissing = exLexicon ''missing.txt'' [''AX'']"

definition exLexMap :: LexiconMap where
  "exLexMap =
     \<lparr>familyName = (\<lambda>n. if n \<in> set [''NEW'', ''BIG'', ''LONG'', ''MISSING''] then Some FamilyCSW
                        else if n = ''TWL'' then Some FamilyTWL else None),
      newestInFamily = (\<lambda>f. if f = FamilyTWL then exTWL else exNew),
      priorLexicon = (\<lambda>f n. if n = ''NEW'' then Some exOld else None)\<rparr>"

definition noFaults :: faults where
  "noFaults c = False"

text \<open>The environment in which every insert of the word \<open>EAT\<close> fails.\<close>

definition wordFault :: faults where
  "wordFault c = (case c of InsertWord r \<Rightarrow> w_word r = ''EAT'' | _ \<Rightarrow> False)"


definition initState :: state where
  "initState = \<lparr>file_exists = False, disk = no_tables, tx = None, trace = [], halted = None\<rparr>"

text \<open>A dataset of the oldest schema, with the given content of the version table.\<close>

definition exDb :: "int list option \<Rightarrow> db" where
  "exDb vs =
     \<lparr>t_alphagrams =
        [\<lparr>a_probability = 1, a_alphagram = ''AET'', a_length = 3, a_combinations = 7,
          a_num_anagrams = None, a_point_value = None, a_num_vowels = None,
          a_contains_word_uniq_to_lex_split = None, a_contains_update_to_lex = None,
          a_difficulty = None\<rparr>],
      t_words =
        [\<lparr>w_word = ''TEA'', w_alphagram = ''AET'', w_lexicon_symbols = ''+'',
          w_definition = ''a drink'', w_front_hooks = [], w_back_hooks = ''LMRS'',
          w_inner_front_hook = 0, w_inner_back_hook = 0\<rparr>,
         \<lparr>w_word = ''EAT'', w_alphagram = ''AET'', w_lexicon_symbols = [],
          w_definition = ''to consume'', w_front_hooks = ''BFHMNPS'', w_back_hooks = ''HS'',
          w_inner_front_hook = 1, w_inner_back_hook = 0\<rparr>],
      t_deletedwords = [],
      t_db_version = vs,
      ddl = [''alphagrams'', ''words'', ''alpha_index'', ''prob_index'', ''word_index'',
        ''alphagram_index'']\<rparr>"

definition exState :: "int list option \<Rightarrow> state" where
  "exState vs = \<lparr>file_exists = True, disk = exDb vs, tx = None, trace = [], halted = None\<rparr>"

section \<open>Properties of the provenance annotator\<close>

lemma Contains_single: "Contains s [c] = (c \<in> set s)"
  by (induction s) auto

lemma containsWordUniqueToLexSplit_iff:
  "(containsWordUniqueToLexSplit l = 1) = (\<exists>s \<in> set l. Contains s ''$'' \<or> Contains s ''#'')"
  by (induction l) auto

lemma containsWordUniqueToLexSplit_zero:
  "(containsWordUniqueToLexSplit l = 0) = (\<not> (\<exists>s \<in> set l. Contains s ''$'' \<or> Contains s ''#''))"
  by (induction l) auto

lemma containsUpdateToLex_iff:
  "(containsUpdateToLex l = 1) = (\<exists>s \<in> set l. Contains s ''+'')"
  by (induction l) auto

lemma containsUpdateToLex_zero:
  "(containsUpdateToLex l = 0) = (\<not> (\<exists>s \<in> set l. Contains s ''+''))"
  by (induction l) auto

lemma findLexSymbols_eq:
  "findLexSymbols word latestCSW latestTWL lexFamily priorLex =
     (if (\<exists>p. priorLex = Some p \<and> \<not> FindWord (Dawg p) word) then ''+'' else []) @
     (if lexFamily = FamilyCSW \<and> \<not> FindWord (Dawg latestTWL) word then ''#'' else []) @
     (if lexFamily = FamilyTWL \<and> \<not> FindWord (Dawg latestCSW) word then ''$'' else [])"
  by (cases priorLex)
     (auto simp: findLexSymbols_def LexiconUpdateSymbol_def CSWOnlySymbol_def TWLOnlySymbol_def)

section \<open>Scanning, sorting and the loops of the build\<close>

lemma map_filter_snoc: "List.map_filter f (xs @ [x]) = List.map_filter f xs @ (case f x of None \<Rightarrow> [] | Some y \<Rightarrow> [y])"
  by (cases "f x") (simp_all add: List.map_filter_def)

lemma scan_inv_step:
  assumes "scan_inv combos dist ws st"
  shows "scan_inv combos dist (ws @ (case lineWord line of None \<Rightarrow> [] | Some w \<Rightarrow> [w])) (scanLine combos dist st line)"
proof (cases "Fields line")
  case Nil
  then show ?thesis using assms by (simp add: scanLine_def lineWord_def)
next
  case (Cons f0 rest)
  let ?w = "ToUpper f0"
  let ?k = "MakeAlphagram dist ?w"
  have lw: "lineWord line = Some ?w" using Cons by (simp add: lineWord_def)
  show ?thesis
  proof (cases "map_of (alphagrams st) ?k")
    case None
    then have notin: "?k \<notin> fst ` set (alphagrams st)"
      by (simp add: map_of_eq_None_iff)
    show ?thesis
      using assms None notin Cons lw
      unfolding scan_inv_def
      apply (simp add: scanLine_def Let_def addToDefinitions_def distinct_update update_conv' update_keys)
      apply (auto simp: filter_empty_conv image_iff)
      done
  next
    case (Some alph)
    then have isin: "?k \<in> fst ` set (alphagrams st)"
      by (metis map_of_eq_None_iff option.distinct(1))
    show ?thesis
      using assms Some isin Cons lw
      unfolding scan_inv_def
      apply (simp add: scanLine_def Let_def addToDefinitions_def distinct_update update_conv' update_keys)
      apply (auto simp: filter_empty_conv image_iff)
      done
  qed
qed

lemma scan_inv_scanned: "scan_inv combos dist (List.map_filter lineWord ls) (scanned combos dist ls)"
proof (induction ls rule: rev_induct)
  case Nil
  then show ?case by (simp add: scanned_def scan_inv_def List.map_filter_def)
next
  case (snoc l ls)
  have "scanned combos dist (ls @ [l]) = scanLine combos dist (scanned combos dist ls) l"
    by (simp add: scanned_def)
  then show ?case using scan_inv_step [OF snoc.IH, of l] by (simp add: map_filter_snoc)
qed

lemma not_Less_iff: "(\<not> Less b a) = keyLe a b"
  by (auto simp: Less_def keyLe_def)

lemma keyLe_trans: "keyLe a b \<Longrightarrow> keyLe b c \<Longrightarrow> keyLe a c"
  by (auto simp: keyLe_def)

lemma keyLe_total: "keyLe a b \<or> keyLe b a"
  by (auto simp: keyLe_def)

lemma Less_keyLe: "Less a b \<Longrightarrow> keyLe a b"
  by (auto simp: Less_def keyLe_def split: if_splits)

lemma keyLe_Less: "keyLe a b \<Longrightarrow> alphagram a \<noteq> alphagram b \<Longrightarrow> Less a b"
  by (auto simp: Less_def keyLe_def)

lemma Less_trans: "Less a b \<Longrightarrow> Less b c \<Longrightarrow> Less a c"
  by (auto simp: Less_def split: if_splits)

lemma Less_asym: "Less a b \<Longrightarrow> \<not> Less b a"
  by (auto simp: Less_def split: if_splits)

lemma mset_insertAlph: "mset (insertAlph x xs) = add_mset x (mset xs)"
  by (induction xs) auto

lemma set_insertAlph: "set (insertAlph x xs) = insert x (set xs)"
  by (induction xs) auto

lemma sorted_insertAlph:
  "sorted_wrt keyLe xs \<Longrightarrow> sorted_wrt keyLe (insertAlph x xs)"
proof (induction xs)
  case Nil
  then show ?case by simp
next
  case (Cons y ys)
  show ?case
  proof (cases "Less y x")
    case True
    then show ?thesis using Cons by (auto simp: set_insertAlph Less_keyLe)
  next
    case False
    then have "keyLe x y" by (simp add: not_Less_iff)
    then show ?thesis using Cons False by (auto intro: keyLe_trans)
  qed
qed

lemma mset_sortAlphByCombos: "mset (sortAlphByCombos xs) = mset xs"
  by (induction xs) (simp_all add: sortAlphByCombos_def mset_insertAlph)

lemma set_sortAlphByCombos: "set (sortAlphByCombos xs) = set xs"
  using mset_sortAlphByCombos [of xs] by (metis set_mset_mset)

lemma length_sortAlphByCombos: "length (sortAlphByCombos xs) = length xs"
  using mset_sortAlphByCombos [of xs] by (metis size_mset)

lemma sorted_sortAlphByCombos: "sorted_wrt keyLe (sortAlphByCombos xs)"
  by (induction xs) (simp_all add: sortAlphByCombos_def sorted_insertAlph)

lemma distinct_map_mset: "mset xs = mset ys \<Longrightarrow> distinct (map f xs) \<Longrightarrow> distinct (map f ys)"
  by (metis distinct_count_atmost_1 mset_map set_mset_mset)

lemma strict_sorted_sortAlphByCombos:
  assumes "distinct (map alphagram xs)"
  shows "sorted_wrt Less (sortAlphByCombos xs)"
proof -
  have d: "distinct (map alphagram (sortAlphByCombos xs))"
    using assms distinct_map_mset mset_sortAlphByCombos by metis
  have "sorted_wrt (\<lambda>a b. keyLe a b \<and> alphagram a \<noteq> alphagram b) (sortAlphByCombos xs)"
    using sorted_sortAlphByCombos [of xs] d
    by (induction "sortAlphByCombos xs" arbitrary: xs) (auto simp: sorted_wrt_iff_nth_less distinct_conv_nth nth_eq_iff_index_eq)
  then show ?thesis
    by (rule sorted_wrt_mono_rel [rotated]) (auto intro: keyLe_Less)
qed

lemma Less_sorted_unique:
  "sorted_wrt Less xs \<Longrightarrow> sorted_wrt Less ys \<Longrightarrow> mset xs = mset ys \<Longrightarrow> xs = ys"
proof (induction xs arbitrary: ys)
  case Nil
  then show ?case by simp
next
  case (Cons x xs)
  then obtain y ys' where ys: "ys = y # ys'" by (cases ys) auto
  have xin: "x \<in> set ys" and yin: "y \<in> set (x # xs)"
    using Cons.prems(3) ys by (metis list.set_intros(1) set_mset_mset)+
  have "x = y"
  proof (rule ccontr)
    assume ne: "x \<noteq> y"
    then have "x \<in> set ys'" "y \<in> set xs" using xin yin ys by auto
    then have "Less y x" "Less x y" using Cons.prems(1,2) ys by auto
    then show False using Less_asym by blast
  qed
  then show ?case using Cons ys by auto
qed

text \<open>The sorted slice does not depend on the order in which the map was iterated.\<close>

lemma sortAlphByCombos_perm:
  assumes "mset xs = mset ys" and "distinct (map alphagram xs)"
  shows "sortAlphByCombos xs = sortAlphByCombos ys"
proof -
  have "distinct (map alphagram ys)"
    using assms by (rule distinct_map_mset)
  then have "sorted_wrt Less (sortAlphByCombos ys)"
    by (rule strict_sorted_sortAlphByCombos)
  moreover have "sorted_wrt Less (sortAlphByCombos xs)"
    using assms(2) by (rule strict_sorted_sortAlphByCombos)
  moreover have "mset (sortAlphByCombos xs) = mset (sortAlphByCombos ys)"
    using assms(1) by (simp add: mset_sortAlphByCombos)
  ultimately show ?thesis by (intro Less_sorted_unique)
qed

lemma run_halted: "halted s \<noteq> None \<Longrightarrow> run fs s = s"
  by (cases fs) auto

lemma run_append: "run (fs @ gs) s = run gs (run fs s)"
  by (induction fs arbitrary: s) (auto simp: run_halted)

lemma addRows_addRows: "addRows ws2 as2 (addRows ws1 as1 d) = addRows (ws1 @ ws2) (as1 @ as2) d"
  by (simp add: addRows_def)

lemma addRows_Nil: "addRows [] [] d = d"
  by (simp add: addRows_def)

lemma foldl_insert_words:
  "foldl (\<lambda>s r. s\<lparr>tx := map_option (\<lambda>d. d\<lparr>t_words := t_words d @ [r]\<rparr>) (tx s),
                    trace := trace s @ [InsertWord r]\<rparr>) s rows =
   s\<lparr>tx := map_option (addRows rows []) (tx s), trace := trace s @ map InsertWord rows\<rparr>"
proof (induction rows arbitrary: s)
  case Nil
  then show ?case by (simp add: addRows_def option.map_ident)
next
  case (Cons r rows)
  show ?case
    by (simp add: Cons.IH option.map_comp comp_def addRows_def)
qed

lemma insertWords_nofault:
  assumes "\<And>c. \<not> F c"
  shows "insertWords F rows s =
     s\<lparr>tx := map_option (addRows rows []) (tx s), trace := trace s @ map InsertWord rows\<rparr>"
  using foldl_insert_words [of s rows]
  by (simp add: insertWords_def tx_Exec_def assms)

lemma insertAlphagrams_nofault:
  assumes nf: "\<And>c. \<not> F c"
  shows "halted s = None \<Longrightarrow> tx s = Some d \<Longrightarrow> length probs = 16 \<Longrightarrow>
     \<forall>a \<in> set alphs. length (alphagram a) \<le> 15 \<Longrightarrow>
     (let s' = insertAlphagrams F g li defs latestCSW latestTWL lexFamily priorLex alphs probs s
      in halted s' = None \<and> disk s' = disk s \<and> file_exists s' = file_exists s \<and>
         tx s' = Some (addRows
           (concat (map (\<lambda>a. map (wordRow g li defs latestCSW latestTWL lexFamily priorLex a) (words a)) alphs))
           (rankedRows li (\<lambda>w. findLexSymbols w latestCSW latestTWL lexFamily priorLex) alphs probs) d))"
proof (induction alphs arbitrary: s d probs)
  case Nil
  then show ?case by (simp add: addRows_Nil)
next
  case (Cons a alphs)
  let ?wl = "length (alphagram a)"
  let ?probs = "probs[?wl := probs ! ?wl + 1]"
  let ?wrows = "map (wordRow g li defs latestCSW latestTWL lexFamily priorLex a) (words a)"
  let ?row = "alphRow li a (map (\<lambda>w. findLexSymbols w latestCSW latestTWL lexFamily priorLex) (words a)) (?probs ! ?wl)"
  let ?s1 = "insertWords F ?wrows s"
  let ?s2 = "exitIfError (tx_Exec F (InsertAlphagram ?row) (\<lambda>d. d\<lparr>t_alphagrams := t_alphagrams d @ [?row]\<rparr>) ?s1)"
  have wl: "?wl \<le> 15" using Cons.prems by simp
  have s2: "halted ?s2 = None" "disk ?s2 = disk s" "file_exists ?s2 = file_exists s"
    "tx ?s2 = Some (addRows ?wrows [?row] d)" "length ?probs = 16"
    using Cons.prems nf by (simp_all add: insertWords_nofault [OF nf] exitIfError_def tx_Exec_def addRows_def)
  have step: "insertAlphagrams F g li defs latestCSW latestTWL lexFamily priorLex (a # alphs) probs s =
     insertAlphagrams F g li defs latestCSW latestTWL lexFamily priorLex alphs ?probs ?s2"
    using Cons.prems wl by (simp add: Let_def)
  have rest: "\<forall>a \<in> set alphs. length (alphagram a) \<le> 15" using Cons.prems by simp
  show ?case
    unfolding step
    using Cons.IH [OF s2(1) s2(4) s2(5) rest] s2(2,3)
    by (simp add: Let_def addRows_addRows)
qed

lemma createSqliteDb_nofault:
  assumes nf: "\<And>c. \<not> F c" and "halted s = None" and "\<not> (quitIfExists \<and> file_exists s)"
  shows "createSqliteDb F quitIfExists s =
     s\<lparr>file_exists := True, disk := freshDb, trace := trace s @ [Open, CreateTables]\<rparr>"
  using assms
  by (auto simp: createSqliteDb_def exitIfError_def db_Call_def db_Exec_def no_tables_def freshDb_def)

lemma run_deleted_nofault:
  assumes nf: "\<And>c. \<not> F c"
  shows "halted s = None \<Longrightarrow> tx s = Some d \<Longrightarrow>
    (let s' = run (map (\<lambda>word s.
                  exitIfError (tx_Exec F (InsertDeletedWord word (int (length word)))
                    (\<lambda>d. d\<lparr>t_deletedwords := t_deletedwords d @ [(word, int (length word))]\<rparr>) s)) ws) s
     in halted s' = None \<and> disk s' = disk s \<and> file_exists s' = file_exists s \<and>
        tx s' = Some (d\<lparr>t_deletedwords := t_deletedwords d @ map (\<lambda>w. (w, int (length w))) ws\<rparr>))"
proof (induction ws arbitrary: s d)
  case Nil
  then show ?case by simp
next
  case (Cons w ws)
  let ?s1 = "exitIfError (tx_Exec F (InsertDeletedWord w (int (length w)))
                    (\<lambda>d. d\<lparr>t_deletedwords := t_deletedwords d @ [(w, int (length w))]\<rparr>) s)"
  have s1: "halted ?s1 = None" "disk ?s1 = disk s" "file_exists ?s1 = file_exists s"
    "tx ?s1 = Some (d\<lparr>t_deletedwords := t_deletedwords d @ [(w, int (length w))]\<rparr>)"
    using Cons.prems nf by (simp_all add: exitIfError_def tx_Exec_def)
  show ?case
    using Cons.IH [OF s1(1) s1(4)] s1(2,3) Cons.prems(1)
    by (simp add: Let_def)
qed

lemma insertDeletedWords_nofault:
  assumes nf: "\<And>c. \<not> F c" and h: "halted s = None" and t: "tx s = None"
  shows "(let s' = insertDeletedWords F ws s
     in halted s' = None \<and> file_exists s' = file_exists s \<and> tx s' = None \<and>
        disk s' = (disk s)\<lparr>t_deletedwords := t_deletedwords (disk s) @ map (\<lambda>w. (w, int (length w))) (sort ws)\<rparr>)"
proof (cases "ws = []")
  case True
  then show ?thesis using h t by (simp add: insertDeletedWords_def)
next
  case False
  let ?s1 = "exitIfError (db_Call F PrepareDeletedInsert (exitIfError (db_Begin F s)))"
  have s1: "halted ?s1 = None" "tx ?s1 = Some (disk s)" "disk ?s1 = disk s" "file_exists ?s1 = file_exists s"
    using h nf by (simp_all add: exitIfError_def db_Call_def db_Begin_def)
  let ?steps = "map (\<lambda>word s.
                  exitIfError (tx_Exec F (InsertDeletedWord word (int (length word)))
                    (\<lambda>d. d\<lparr>t_deletedwords := t_deletedwords d @ [(word, int (length word))]\<rparr>) s)) (sort ws)"
  have h0: "halted (exitIfError (db_Begin F s)) = None"
    using h nf by (simp add: exitIfError_def db_Begin_def)
  have eq: "insertDeletedWords F ws s = run [tx_Commit F] (run ?steps ?s1)"
    using False h h0 by (simp add: insertDeletedWords_def run_append)
  show ?thesis
    unfolding eq
    using run_deleted_nofault [OF nf s1(1) s1(2), where ws = "sort ws"] s1(3,4)
    by (simp add: Let_def tx_Commit_def nf [of Commit])
qed

lemma CreateLexiconDatabase_nofault:
  assumes nf: "\<And>c. \<not> F c"
    and h: "halted s0 = None"
    and q: "\<not> (quitIfExists \<and> file_exists s0)"
    and fam: "familyName lexMap lexiconName = Some lexFamily"
    and len: "\<forall>a \<in> set (alphaMapValues (alphagrams (populateAlphsDefs (fs (LexiconFilename li))
                 (Combinations li) (LetterDist li)))). length (alphagram a) \<le> 15"
  shows "(let s' = CreateLexiconDatabase F fs g lexiconName li lexMap quitIfExists s0;
              ad = populateAlphsDefs (fs (LexiconFilename li)) (Combinations li) (LetterDist li);
              alphs = sortAlphByCombos (alphaMapValues (alphagrams ad));
              latestCSW = newestInFamily lexMap FamilyCSW;
              latestTWL = newestInFamily lexMap FamilyTWL;
              priorLex = priorLexicon lexMap lexFamily lexiconName
          in halted s' = None \<and> file_exists s' \<and> tx s' = None \<and>
             disk s' =
               \<lparr>t_alphagrams = rankedRows li (\<lambda>w. findLexSymbols w latestCSW latestTWL lexFamily priorLex)
                   alphs (replicate 16 0),
                t_words = concat (map (\<lambda>a. map (wordRow g li (definitions ad) latestCSW latestTWL
                   lexFamily priorLex a) (words a)) alphs),
                t_deletedwords = map (\<lambda>w. (w, int (length w))) (sort (findDeletedWords fs li priorLex)),
                t_db_version = Some [CurrentVersion],
                ddl = schemaV6\<rparr>)"
proof -
  define ad where "ad = populateAlphsDefs (fs (LexiconFilename li)) (Combinations li) (LetterDist li)"
  define alphs where "alphs = sortAlphByCombos (alphaMapValues (alphagrams ad))"
  define latestCSW where "latestCSW = newestInFamily lexMap FamilyCSW"
  define latestTWL where "latestTWL = newestInFamily lexMap FamilyTWL"
  define priorLex where "priorLex = priorLexicon lexMap lexFamily lexiconName"
  define s1 where "s1 = createSqliteDb F quitIfExists s0"
  define s2 where "s2 = exitIfError (db_Call F PrepareWordInsert (exitIfError (db_Call F PrepareAlphInsert
      (exitIfError (db_Begin F (exitIfError (db_Call F Open s1)))))))"
  define s3 where "s3 = insertAlphagrams F g li (definitions ad) latestCSW latestTWL
                        lexFamily priorLex alphs (replicate 16 0) s2"
  define s4 where "s4 = tx_Commit F s3"
  define s5 where "s5 = insertDeletedWords F (findDeletedWords fs li priorLex) s4"
  define s6 where "s6 = exitIfError (db_Exec F (InsertVersion CurrentVersion)
                             (\<lambda>d. d\<lparr>t_db_version :=
                                map_option (\<lambda>vs. vs @ [CurrentVersion]) (t_db_version d)\<rparr>) s5)"
  have s1: "halted s1 = None" "file_exists s1" "disk s1 = freshDb"
    unfolding s1_def using h by (simp_all add: createSqliteDb_nofault [OF nf h q])
  have s2: "halted s2 = None" "file_exists s2" "disk s2 = freshDb" "tx s2 = Some freshDb"
    unfolding s2_def using s1 nf by (simp_all add: exitIfError_def db_Call_def db_Begin_def)
  have h1a: "halted (exitIfError (db_Call F Open s1)) = None"
    and h1b: "halted (exitIfError (db_Begin F (exitIfError (db_Call F Open s1)))) = None"
    and h1c: "halted (exitIfError (db_Call F PrepareAlphInsert
      (exitIfError (db_Begin F (exitIfError (db_Call F Open s1)))))) = None"
    using s1 nf by (simp_all add: exitIfError_def db_Call_def db_Begin_def)
  have len': "\<forall>a \<in> set alphs. length (alphagram a) \<le> 15"
    using len by (simp add: alphs_def ad_def set_sortAlphByCombos)
  have s3: "halted s3 = None" "file_exists s3" "disk s3 = freshDb"
    "tx s3 = Some (addRows
           (concat (map (\<lambda>a. map (wordRow g li (definitions ad) latestCSW latestTWL lexFamily priorLex a) (words a)) alphs))
           (rankedRows li (\<lambda>w. findLexSymbols w latestCSW latestTWL lexFamily priorLex) alphs (replicate 16 0)) freshDb)"
    using insertAlphagrams_nofault [OF nf s2(1) s2(4) _ len', where probs = "replicate 16 0" and g = g
        and li = li and defs = "definitions ad" and latestCSW = latestCSW and latestTWL = latestTWL
        and lexFamily = lexFamily and priorLex = priorLex] s2
    by (simp_all add: Let_def s3_def)
  have s4: "halted s4 = None" "file_exists s4" "tx s4 = None"
    "disk s4 = addRows
           (concat (map (\<lambda>a. map (wordRow g li (definitions ad) latestCSW latestTWL lexFamily priorLex a) (words a)) alphs))
           (rankedRows li (\<lambda>w. findLexSymbols w latestCSW latestTWL lexFamily priorLex) alphs (replicate 16 0)) freshDb"
    using s3 by (simp_all add: s4_def tx_Commit_def nf [of Commit])
  have s5: "halted s5 = None" "file_exists s5" "tx s5 = None"
    "disk s5 = (disk s4)\<lparr>t_deletedwords := t_deletedwords (disk s4) @
        map (\<lambda>w. (w, int (length w))) (sort (findDeletedWords fs li priorLex))\<rparr>"
    using insertDeletedWords_nofault [OF nf s4(1) s4(3), where ws = "findDeletedWords fs li priorLex"] s4(2)
    by (simp_all add: Let_def s5_def)
  have s6: "halted s6 = None" "file_exists s6" "tx s6 = None"
    "disk s6 = \<lparr>t_alphagrams = rankedRows li (\<lambda>w. findLexSymbols w latestCSW latestTWL lexFamily priorLex)
                   alphs (replicate 16 0),
                t_words = concat (map (\<lambda>a. map (wordRow g li (definitions ad) latestCSW latestTWL
                   lexFamily priorLex a) (words a)) alphs),
                t_deletedwords = map (\<lambda>w. (w, int (length w))) (sort (findDeletedWords fs li priorLex)),
                t_db_version = Some [CurrentVersion],
                ddl = schemaV6\<rparr>"
    using s5 s4(4) nf by (simp_all add: s6_def exitIfError_def db_Exec_def addRows_def freshDb_def)
  have "CreateLexiconDatabase F fs g lexiconName li lexMap quitIfExists s0 = s6"
    using h s1(1) h1a h1b h1c s2(1) s3(1) s4(1) s5(1) fam
    unfolding CreateLexiconDatabase_def Let_def
    by (simp add: s1_def [symmetric] s2_def [symmetric] ad_def [symmetric] alphs_def [symmetric]
        latestCSW_def [symmetric] latestTWL_def [symmetric] priorLex_def [symmetric]
        s3_def [symmetric] s4_def [symmetric] s5_def [symmetric] s6_def [symmetric])
  then show ?thesis
    using s6
    by (simp add: Let_def ad_def [symmetric] alphs_def [symmetric]
        latestCSW_def [symmetric] latestTWL_def [symmetric] priorLex_def [symmetric])
qed

lemma rankedRows_alphagram: "map a_alphagram (rankedRows li symf alphs probs) = map alphagram alphs"
  by (induction alphs arbitrary: probs) (simp_all add: Let_def alphRow_def)

lemma rankedRows_length: "length (rankedRows li symf alphs probs) = length alphs"
  by (induction alphs arbitrary: probs) (simp_all add: Let_def)

lemma rankedRows_nth:
  "i < length alphs \<Longrightarrow>
     a_alphagram (rankedRows li symf alphs probs ! i) = alphagram (alphs ! i) \<and>
     a_length (rankedRows li symf alphs probs ! i) = int (length (alphagram (alphs ! i))) \<and>
     a_combinations (rankedRows li symf alphs probs ! i) = uint (combinations (alphs ! i)) \<and>
     a_num_anagrams (rankedRows li symf alphs probs ! i) = Some (int (length (words (alphs ! i))))"
proof (induction alphs arbitrary: probs i)
  case Nil
  then show ?case by simp
next
  case (Cons a alphs)
  then show ?case by (cases i) (simp_all add: Let_def alphRow_def)
qed

lemma upt_shift:
  "map f [Suc 0..<Suc (Suc k)] = f (Suc 0) # map (\<lambda>i. f (Suc i)) [Suc 0..<Suc k]"
proof -
  have "[Suc 0..<Suc (Suc k)] = Suc 0 # [Suc (Suc 0)..<Suc (Suc k)]"
    by (simp add: upt_conv_Cons)
  also have "[Suc (Suc 0)..<Suc (Suc k)] = map Suc [Suc 0..<Suc k]"
    by (simp only: map_Suc_upt)
  finally show ?thesis by (simp add: comp_def del: upt_Suc)
qed

lemma rankedRows_cohort:
  "L < length probs \<Longrightarrow> \<forall>a \<in> set alphs. length (alphagram a) < length probs \<Longrightarrow>
   map a_probability (filter (\<lambda>r. a_length r = int L) (rankedRows li symf alphs probs)) =
   map (\<lambda>i. uint (probs ! L + of_nat i))
     [1..<Suc (length (filter (\<lambda>a. length (alphagram a) = L) alphs))]"
proof (induction alphs arbitrary: probs)
  case Nil
  then show ?case by simp
next
  case (Cons a alphs)
  let ?wl = "length (alphagram a)"
  let ?probs = "probs[?wl := probs ! ?wl + 1]"
  have len: "L < length ?probs" "\<forall>a \<in> set alphs. length (alphagram a) < length ?probs"
    using Cons.prems by simp_all
  note IH = Cons.IH [OF len]
  show ?case
  proof (cases "?wl = L")
    case True
    have pl: "?probs ! L = probs ! L + 1" using True Cons.prems by simp
    show ?thesis
      using True IH pl
      by (simp add: Let_def alphRow_def upt_shift add.assoc del: upt_Suc)
  next
    case False
    have pl: "?probs ! L = probs ! L" using False by simp
    show ?thesis
      using False IH pl by (simp add: Let_def alphRow_def del: upt_Suc)
  qed
qed

lemma rankedRows_cohort_zero:
  assumes "L < 16" and "\<forall>a \<in> set alphs. length (alphagram a) \<le> 15"
    and "length alphs < 2 ^ 32"
  shows "map a_probability (filter (\<lambda>r. a_length r = int L) (rankedRows li symf alphs (replicate 16 0))) =
   map int [1..<Suc (length (filter (\<lambda>a. length (alphagram a) = L) alphs))]"
proof -
  let ?K = "length (filter (\<lambda>a. length (alphagram a) = L) alphs)"
  have K: "?K < 2 ^ 32"
    using assms(3) length_filter_le [of "\<lambda>a. length (alphagram a) = L" alphs] by linarith
  have "\<forall>a \<in> set alphs. length (alphagram a) < length (replicate 16 (0 :: 32 word))"
    using assms(2) by auto
  then have "map a_probability (filter (\<lambda>r. a_length r = int L) (rankedRows li symf alphs (replicate 16 0))) =
     map (\<lambda>i. uint (replicate 16 (0 :: 32 word) ! L + of_nat i)) [1..<Suc ?K]"
    using rankedRows_cohort [of L "replicate 16 0" alphs li symf] assms(1) by simp
  also have "\<dots> = map int [1..<Suc ?K]"
  proof (rule map_cong [OF refl])
    fix i assume "i \<in> set [1..<Suc ?K]"
    then have "i < 2 ^ 32" using K by auto
    then have "uint (of_nat i :: 32 word) = int i"
      by (simp add: uint_nat unat_of_nat)
    then show "uint (replicate 16 (0 :: 32 word) ! L + of_nat i) = int i"
      using assms(1) by simp
  qed
  finally show ?thesis .
qed

lemma alphagrams_populate:
  "alphagrams (populateAlphsDefs fl combos dist) =
     alphagrams (scanned combos dist (case fl of None \<Rightarrow> [] | Some ls \<Rightarrow> ls))"
  by (simp add: populateAlphsDefs_def scanned_def Let_def)

lemma definitions_populate:
  "definitions (populateAlphsDefs fl combos dist) =
     definitions (scanned combos dist (case fl of None \<Rightarrow> [] | Some ls \<Rightarrow> ls))"
  by (simp add: populateAlphsDefs_def scanned_def Let_def expandDefinitions_def)

lemma comboCalls_populate:
  "comboCalls (populateAlphsDefs fl combos dist) =
     comboCalls (scanned combos dist (case fl of None \<Rightarrow> [] | Some ls \<Rightarrow> ls))"
  by (simp add: populateAlphsDefs_def scanned_def Let_def)

lemma populate_inv:
  "scan_inv combos dist (fileWords fl)
     (scanned combos dist (case fl of None \<Rightarrow> [] | Some ls \<Rightarrow> ls))"
  unfolding fileWords_def by (rule scan_inv_scanned)

lemma populate_keys:
  "distinct (map fst (alphagrams (populateAlphsDefs fl combos dist)))"
  "set (map fst (alphagrams (populateAlphsDefs fl combos dist))) =
     MakeAlphagram dist ` set (fileWords fl)"
  using populate_inv [of combos dist fl]
  by (simp_all add: scan_inv_def alphagrams_populate)

lemma populate_class:
  assumes "(k, a) \<in> set (alphagrams (populateAlphsDefs fl combos dist))"
  shows "alphagram a = k \<and> combinations a = combos k True \<and>
     words a = filter (\<lambda>w. MakeAlphagram dist w = k) (fileWords fl)"
proof -
  have "map_of (alphagrams (populateAlphsDefs fl combos dist)) k = Some a"
    using assms populate_keys(1) by simp
  then show ?thesis
    using populate_inv [of combos dist fl]
    by (simp add: scan_inv_def alphagrams_populate)
qed

lemma populate_values_alphagram:
  "map alphagram (alphaMapValues (alphagrams (populateAlphsDefs fl combos dist))) =
     map fst (alphagrams (populateAlphsDefs fl combos dist))"
  unfolding alphaMapValues_def
proof (rule nth_equalityI)
  show "length (map alphagram (map snd (alphagrams (populateAlphsDefs fl combos dist)))) =
    length (map fst (alphagrams (populateAlphsDefs fl combos dist)))" by simp
next
  fix i assume "i < length (map alphagram (map snd (alphagrams (populateAlphsDefs fl combos dist))))"
  then have i: "i < length (alphagrams (populateAlphsDefs fl combos dist))" by simp
  then have "alphagrams (populateAlphsDefs fl combos dist) ! i \<in> set (alphagrams (populateAlphsDefs fl combos dist))"
    by simp
  then have "alphagram (snd (alphagrams (populateAlphsDefs fl combos dist) ! i)) =
     fst (alphagrams (populateAlphsDefs fl combos dist) ! i)"
    using populate_class [of "fst (alphagrams (populateAlphsDefs fl combos dist) ! i)"
        "snd (alphagrams (populateAlphsDefs fl combos dist) ! i)" fl combos dist] by simp
  then show "map alphagram (map snd (alphagrams (populateAlphsDefs fl combos dist))) ! i =
    map fst (alphagrams (populateAlphsDefs fl combos dist)) ! i"
    using i by simp
qed

lemma Less_rowBefore:
  assumes "Less a b"
    and "a_combinations r = uint (combinations a)" "a_alphagram r = alphagram a"
    and "a_combinations r' = uint (combinations b)" "a_alphagram r' = alphagram b"
  shows "rowBefore r r'"
  using assms by (auto simp: Less_def rowBefore_def word_less_def split: if_splits)

lemma rankedRows_sorted:
  assumes "sorted_wrt Less alphs"
  shows "sorted_wrt rowBefore (rankedRows li symf alphs probs)"
  unfolding sorted_wrt_iff_nth_less
proof (intro allI impI)
  fix i j assume ij: "i < j" "j < length (rankedRows li symf alphs probs)"
  then have j: "j < length alphs" and i: "i < length alphs"
    by (simp_all add: rankedRows_length)
  have "Less (alphs ! i) (alphs ! j)"
    using assms ij(1) j by (simp add: sorted_wrt_iff_nth_less)
  then show "rowBefore (rankedRows li symf alphs probs ! i) (rankedRows li symf alphs probs ! j)"
    using rankedRows_nth [OF i, of li symf probs] rankedRows_nth [OF j, of li symf probs]
    by (intro Less_rowBefore) auto
qed

lemma rank_order:
  assumes sorted: "sorted_wrt rowBefore rows"
    and dense: "map a_probability (filter (\<lambda>r. a_length r = l) rows) = map int [1..<Suc K]"
    and r: "r \<in> set rows" "r' \<in> set rows" "a_length r = l" "a_length r' = l"
    and lt: "a_probability r < a_probability r'"
  shows "a_combinations r' \<le> a_combinations r"
proof -
  let ?C = "filter (\<lambda>r. a_length r = l) rows"
  have len: "length ?C = K"
    using arg_cong [OF dense, of length] by simp
  have sC: "sorted_wrt rowBefore ?C"
    using sorted by (rule sorted_wrt_filter)
  have "r \<in> set ?C" "r' \<in> set ?C" using r by simp_all
  then obtain i j where i: "i < length ?C" "?C ! i = r" and j: "j < length ?C" "?C ! j = r'"
    by (metis in_set_conv_nth)
  have "a_probability (?C ! i) = map int [1..<Suc K] ! i"
    using dense i(1) by (metis nth_map)
  then have pi: "a_probability r = int (Suc i)" using i len by (simp del: upt_Suc)
  have "a_probability (?C ! j) = map int [1..<Suc K] ! j"
    using dense j(1) by (metis nth_map)
  then have pj: "a_probability r' = int (Suc j)" using j len by (simp del: upt_Suc)
  have "i < j" using lt pi pj by simp
  then have "rowBefore (?C ! i) (?C ! j)"
    using sC j(1) by (simp add: sorted_wrt_iff_nth_less)
  then show ?thesis using i j by (auto simp: rowBefore_def)
qed

lemma scanned_comboCalls:
  "comboCalls (scanned combos dist ls) =
     rev (remdups (rev (map (MakeAlphagram dist) (List.map_filter lineWord ls))))"
proof (induction ls rule: rev_induct)
  case Nil
  then show ?case by (simp add: scanned_def List.map_filter_def)
next
  case (snoc l ls)
  have st: "scanned combos dist (ls @ [l]) = scanLine combos dist (scanned combos dist ls) l"
    by (simp add: scanned_def)
  have inv: "scan_inv combos dist (List.map_filter lineWord ls) (scanned combos dist ls)"
    by (rule scan_inv_scanned)
  show ?case
  proof (cases "Fields l")
    case Nil
    then show ?thesis using snoc by (simp add: st scanLine_def map_filter_snoc lineWord_def)
  next
    case (Cons f0 rest)
    let ?k = "MakeAlphagram dist (ToUpper f0)"
    have lw: "lineWord l = Some (ToUpper f0)" using Cons by (simp add: lineWord_def)
    have mem: "(map_of (alphagrams (scanned combos dist ls)) ?k = None) =
       (?k \<notin> MakeAlphagram dist ` set (List.map_filter lineWord ls))"
      using inv by (simp add: scan_inv_def map_of_eq_None_iff)
    show ?thesis
    proof (cases "map_of (alphagrams (scanned combos dist ls)) ?k")
      case None
      then show ?thesis
        using snoc Cons lw mem
        by (simp add: st scanLine_def Let_def map_filter_snoc)
    next
      case (Some a)
      then show ?thesis
        using snoc Cons lw mem
        by (simp add: st scanLine_def Let_def map_filter_snoc)
    qed
  qed
qed

lemma mset_concat_filter:
  "distinct ks \<Longrightarrow>
   mset (concat (map (\<lambda>k. filter (\<lambda>w. f w = k) ws) ks)) = mset (filter (\<lambda>w. f w \<in> set ks) ws)"
proof (induction ks)
  case Nil
  then show ?case by simp
next
  case (Cons k ks)
  have "mset (filter (\<lambda>w. f w = k) ws) + mset (filter (\<lambda>w. f w \<in> set ks) ws) =
        mset (filter (\<lambda>w. f w = k \<or> f w \<in> set ks) ws)"
    using Cons.prems by (induction ws) auto
  then show ?case using Cons by (simp add: disj_commute)
qed

lemma sort_distinct_eq:
  fixes xs ys :: "'a::linorder list"
  assumes "distinct xs" "distinct ys" "set xs = set ys"
  shows "sort xs = sort ys"
proof -
  have "mset xs = mset ys" using assms by (simp add: set_eq_iff_mset_eq_distinct)
  then have "mset (sort ys) = mset xs" by simp
  then show ?thesis by (metis properties_for_sort sorted_sort)
qed

lemma populate_definitions_keys:
  "distinct (map fst (definitions (populateAlphsDefs fl combos dist)))"
  "set (map fst (definitions (populateAlphsDefs fl combos dist))) = set (fileWords fl)"
  using populate_inv [of combos dist fl]
  by (simp_all add: scan_inv_def definitions_populate)

lemma findDeletedWords_sorted:
  "sort (findDeletedWords fs li (Some p)) =
     sort (filter (\<lambda>word. \<not> FindWord (Dawg li) word) (remdups (fileWords (fs (LexiconFilename p)))))"
  unfolding findDeletedWords_def
  by (rule sort_distinct_eq)
     (simp_all add: populate_definitions_keys distinct_map_filter del: set_map)

lemma populate_comboCalls:
  "comboCalls (populateAlphsDefs fl combos dist) =
     rev (remdups (rev (map (MakeAlphagram dist) (fileWords fl))))"
  by (simp add: comboCalls_populate scanned_comboCalls fileWords_def)

lemma populate_words_class:
  assumes "a \<in> set (alphaMapValues (alphagrams (populateAlphsDefs fl combos dist)))"
  shows "words a = filter (\<lambda>w. MakeAlphagram dist w = alphagram a) (fileWords fl)"
proof -
  obtain k where "(k, a) \<in> set (alphagrams (populateAlphsDefs fl combos dist))"
    using assms by (force simp: alphaMapValues_def)
  then show ?thesis using populate_class [of k a fl combos dist] by simp
qed

lemma mset_class_words:
  assumes "mset alphs = mset (alphaMapValues (alphagrams (populateAlphsDefs fl combos dist)))"
  shows "mset (concat (map words alphs)) = mset (fileWords fl)"
proof -
  let ?vals = "alphaMapValues (alphagrams (populateAlphsDefs fl combos dist))"
  let ?mk = "MakeAlphagram dist"
  have set_eq: "set alphs = set ?vals" using assms by (metis set_mset_mset)
  have m: "map words alphs = map (\<lambda>a. filter (\<lambda>w. ?mk w = alphagram a) (fileWords fl)) alphs"
    using populate_words_class set_eq by (intro map_cong) auto
  have "map (\<lambda>k. filter (\<lambda>w. ?mk w = k) (fileWords fl)) (map alphagram alphs) =
      map (\<lambda>a. filter (\<lambda>w. ?mk w = alphagram a) (fileWords fl)) alphs"
    by (simp add: comp_def)
  then have eq: "concat (map words alphs) =
      concat (map (\<lambda>k. filter (\<lambda>w. ?mk w = k) (fileWords fl)) (map alphagram alphs))"
    by (simp only: m)
  have ms: "mset (map alphagram alphs) = mset (map fst (alphagrams (populateAlphsDefs fl combos dist)))"
    using assms populate_values_alphagram [of fl combos dist] by (metis mset_map)
  have d: "distinct (map alphagram alphs)"
    using ms populate_keys(1) [of fl combos dist] by (metis mset_eq_imp_distinct_iff)
  have s: "set (map alphagram alphs) = ?mk ` set (fileWords fl)"
    using ms populate_keys(2) [of fl combos dist] by (metis set_mset_mset)
  have "mset (concat (map words alphs)) =
      mset (filter (\<lambda>w. ?mk w \<in> set (map alphagram alphs)) (fileWords fl))"
    unfolding eq using d by (rule mset_concat_filter)
  also have "filter (\<lambda>w. ?mk w \<in> set (map alphagram alphs)) (fileWords fl) = fileWords fl"
    unfolding s by (simp add: filter_id_conv)
  finally show ?thesis .
qed

section \<open>The transitions of the migrator\<close>

lemma updateVersion_nofault:
  assumes "\<And>c. \<not> F c"
  shows "updateVersion F v s = s\<lparr>disk := setVersion v (disk s), trace := trace s @ [UpdateVersion v]\<rparr>"
  using assms by (simp add: updateVersion_def exitIfError_def db_Exec_def)

lemma migrateToV3_nofault:
  assumes nf: "\<And>c. \<not> F c" and h: "halted s = None"
  shows "migrated 3 s (migrateToV3 F s)"
  using assms
  by (simp add: migrated_def migrateToV3_def updateVersion_nofault [OF nf] exitIfError_def
      db_Exec_def setVersion_def transitionDdl_def)

lemma migrateToV5_nofault:
  assumes nf: "\<And>c. \<not> F c" and h: "halted s = None"
  shows "migrated 5 s (migrateToV5 F li s)"
  using assms
  by (simp add: migrated_def migrateToV5_def loadDifficulty_def updateVersion_nofault [OF nf]
      exitIfError_def db_Exec_def setVersion_def transitionDdl_def)

lemma migrateToV6_nofault:
  assumes nf: "\<And>c. \<not> F c" and h: "halted s = None"
  shows "migrated 6 s (migrateToV6 F s)"
  using assms
  by (simp add: migrated_def migrateToV6_def updateVersion_nofault [OF nf] exitIfError_def
      db_Exec_def setVersion_def transitionDdl_def)

lemma run_updatesV2_nofault:
  assumes nf: "\<And>c. \<not> F c"
  shows "halted s = None \<Longrightarrow> tx s = Some d \<Longrightarrow>
    (let s' = run (map (\<lambda>alph s.
                        (let wc = uint (wordCount alph); pv = uint (pointValue alph dist);
                             nv = uint (numVowels alph dist)
                         in exitIfError (tx_Exec F (UpdateAlphV2 wc pv nv (alphagram alph))
                              (updateV2 wc pv nv (alphagram alph)) s))) alphs) s
     in halted s' = None \<and> disk s' = disk s \<and>
        (\<exists>d'. tx s' = Some d' \<and> ddl d' = ddl d \<and> t_db_version d' = t_db_version d))"
proof (induction alphs arbitrary: s d)
  case Nil
  then show ?case by simp
next
  case (Cons a alphs)
  let ?s1 = "exitIfError (tx_Exec F (UpdateAlphV2 (uint (wordCount a)) (uint (pointValue a dist))
      (uint (numVowels a dist)) (alphagram a))
      (updateV2 (uint (wordCount a)) (uint (pointValue a dist)) (uint (numVowels a dist)) (alphagram a)) s)"
  let ?d1 = "updateV2 (uint (wordCount a)) (uint (pointValue a dist)) (uint (numVowels a dist)) (alphagram a) d"
  have s1: "halted ?s1 = None" "tx ?s1 = Some ?d1" "disk ?s1 = disk s"
    using Cons.prems nf by (simp_all add: exitIfError_def tx_Exec_def)
  have d1: "ddl ?d1 = ddl d" "t_db_version ?d1 = t_db_version d"
    by (simp_all add: updateV2_def)
  show ?case
    using Cons.IH [OF s1(1) s1(2)] s1(3) d1 Cons.prems(1)
    by (simp add: Let_def)
qed

lemma run_updatesV4_nofault:
  assumes nf: "\<And>c. \<not> F c"
  shows "halted s = None \<Longrightarrow> tx s = Some d \<Longrightarrow>
    (let s' = run (map (\<lambda>alph s.
                        (let uniq = uint (uniqToLexSplit alph); upd = uint (updateToLex alph)
                         in exitIfError (tx_Exec F (UpdateAlphV4 uniq upd (alphagram alph))
                              (updateV4 uniq upd (alphagram alph)) s))) alphs) s
     in halted s' = None \<and> disk s' = disk s \<and>
        (\<exists>d'. tx s' = Some d' \<and> ddl d' = ddl d \<and> t_db_version d' = t_db_version d))"
proof (induction alphs arbitrary: s d)
  case Nil
  then show ?case by simp
next
  case (Cons a alphs)
  let ?s1 = "exitIfError (tx_Exec F (UpdateAlphV4 (uint (uniqToLexSplit a)) (uint (updateToLex a)) (alphagram a))
      (updateV4 (uint (uniqToLexSplit a)) (uint (updateToLex a)) (alphagram a)) s)"
  let ?d1 = "updateV4 (uint (uniqToLexSplit a)) (uint (updateToLex a)) (alphagram a) d"
  have s1: "halted ?s1 = None" "tx ?s1 = Some ?d1" "disk ?s1 = disk s"
    using Cons.prems nf by (simp_all add: exitIfError_def tx_Exec_def)
  have d1: "ddl ?d1 = ddl d" "t_db_version ?d1 = t_db_version d"
    by (simp_all add: updateV4_def)
  show ?case
    using Cons.IH [OF s1(1) s1(2)] s1(3) d1 Cons.prems(1)
    by (simp add: Let_def)
qed

lemma migrateToV2_nofault:
  assumes nf: "\<And>c. \<not> F c" and h: "halted s = None"
  shows "migrated 2 s (migrateToV2 F dist s)"
proof -
  define alter where "alter = (\<lambda>d::db. d\<lparr>t_alphagrams :=
                         map (\<lambda>a. a\<lparr>a_num_anagrams := None, a_point_value := None,
                                    a_num_vowels := None\<rparr>) (t_alphagrams d),
                       ddl := ddl d @ [''num_anagrams'', ''point_value'', ''num_vowels'',
                         ''num_anagrams_index'', ''point_value_index'', ''num_vowels_index'']\<rparr>)"
  define s1 where "s1 = exitIfError (db_Call F QueryV2 (exitIfError (db_Exec F AlterV2 alter s)))"
  define alphs where "alphs = map (\<lambda>(alph, wordCount). mkAlphagram alph (word_of_int wordCount) 0 0)
                      (queryV2 (disk s1))"
  define s2 where "s2 = exitIfError (db_Call F PrepareUpdate (exitIfError (db_Begin F s1)))"
  define steps where "steps = map (\<lambda>alph s.
       exitIfError (tx_Exec F (UpdateAlphV2 (uint (wordCount alph)) (uint (pointValue alph dist))
           (uint (numVowels alph dist)) (alphagram alph))
         (updateV2 (uint (wordCount alph)) (uint (pointValue alph dist))
           (uint (numVowels alph dist)) (alphagram alph)) s)) alphs"
  define s3 where "s3 = run steps s2"
  have h0: "halted (exitIfError (db_Exec F AlterV2 alter s)) = None"
    using h nf by (simp add: exitIfError_def db_Exec_def)
  have s1: "halted s1 = None" "disk s1 = alter (disk s)"
    using h nf by (simp_all add: s1_def exitIfError_def db_Exec_def db_Call_def)
  have h1: "halted (exitIfError (db_Begin F s1)) = None"
    using s1 nf by (simp add: exitIfError_def db_Begin_def)
  have s2: "halted s2 = None" "tx s2 = Some (alter (disk s))" "disk s2 = alter (disk s)"
    using s1 nf by (simp_all add: s2_def exitIfError_def db_Begin_def db_Call_def)
  obtain d' where s3: "halted s3 = None" "tx s3 = Some d'" "ddl d' = ddl (alter (disk s))"
    "t_db_version d' = t_db_version (alter (disk s))"
    using run_updatesV2_nofault [where F = F and alphs = alphs and dist = dist, OF nf s2(1) s2(2)]
    by (auto simp: Let_def s3_def steps_def)
  have eq: "migrateToV2 F dist s = updateVersion F 2 (tx_Commit F s3)"
    using h h0 s1(1) h1 s2(1) s3(1)
    unfolding migrateToV2_def
    by (simp add: alter_def [symmetric] s1_def [symmetric] Let_def alphs_def [symmetric]
        run_append steps_def [symmetric] s2_def [symmetric] s3_def [symmetric] tx_Commit_def nf [of Commit])
  show ?thesis
    unfolding eq migrated_def
    using s3 by (simp add: updateVersion_nofault [OF nf] tx_Commit_def nf [of Commit] setVersion_def alter_def
        transitionDdl_def)
qed

lemma migrateToV4_nofault:
  assumes nf: "\<And>c. \<not> F c" and h: "halted s = None"
  shows "migrated 4 s (migrateToV4 F s)"
proof -
  define alter where "alter = (\<lambda>d::db. d\<lparr>t_alphagrams :=
                         map (\<lambda>a. a\<lparr>a_contains_word_uniq_to_lex_split := None,
                                    a_contains_update_to_lex := None\<rparr>) (t_alphagrams d),
                       ddl := ddl d @ [''contains_word_uniq_to_lex_split'',
                         ''contains_update_to_lex'', ''uniq_word_index'', ''update_word_index'']\<rparr>)"
  define s1 where "s1 = exitIfError (db_Call F QueryV4 (exitIfError (db_Exec F AlterV4 alter s)))"
  define alphs where "alphs = groupV4 (queryV4 (disk s1)) [] [] []"
  define s2 where "s2 = exitIfError (db_Call F PrepareUpdate (exitIfError (db_Begin F s1)))"
  define steps where "steps = map (\<lambda>alph s.
       exitIfError (tx_Exec F (UpdateAlphV4 (uint (uniqToLexSplit alph)) (uint (updateToLex alph))
           (alphagram alph))
         (updateV4 (uint (uniqToLexSplit alph)) (uint (updateToLex alph)) (alphagram alph)) s)) alphs"
  define s3 where "s3 = run steps s2"
  have h0: "halted (exitIfError (db_Exec F AlterV4 alter s)) = None"
    using h nf by (simp add: exitIfError_def db_Exec_def)
  have s1: "halted s1 = None" "disk s1 = alter (disk s)"
    using h nf by (simp_all add: s1_def exitIfError_def db_Exec_def db_Call_def)
  have h1: "halted (exitIfError (db_Begin F s1)) = None"
    using s1 nf by (simp add: exitIfError_def db_Begin_def)
  have s2: "halted s2 = None" "tx s2 = Some (alter (disk s))" "disk s2 = alter (disk s)"
    using s1 nf by (simp_all add: s2_def exitIfError_def db_Begin_def db_Call_def)
  obtain d' where s3: "halted s3 = None" "tx s3 = Some d'" "ddl d' = ddl (alter (disk s))"
    "t_db_version d' = t_db_version (alter (disk s))"
    using run_updatesV4_nofault [where F = F and alphs = alphs, OF nf s2(1) s2(2)]
    by (auto simp: Let_def s3_def steps_def)
  have eq: "migrateToV4 F s = updateVersion F 4 (tx_Commit F s3)"
    using h h0 s1(1) h1 s2(1) s3(1)
    unfolding migrateToV4_def
    by (simp add: alter_def [symmetric] s1_def [symmetric] Let_def alphs_def [symmetric]
        run_append steps_def [symmetric] s2_def [symmetric] s3_def [symmetric] tx_Commit_def nf [of Commit])
  show ?thesis
    unfolding eq migrated_def
    using s3 by (simp add: updateVersion_nofault [OF nf] tx_Commit_def nf [of Commit] setVersion_def alter_def
        transitionDdl_def)
qed

lemma migrateFrom_eq:
  "halted s = None \<Longrightarrow>
   migrateFrom F li v s =
     (if v = 1 then migrateToV2 F (LetterDist li) s
      else if v = 2 then migrateToV3 F s
      else if v = 3 then migrateToV4 F s
      else if v = 4 then migrateToV5 F li s
      else if v = 5 then migrateToV6 F s
      else s)"
  by (simp add: migrateFrom_def)

lemma migrateFrom_nofault:
  assumes nf: "\<And>c. \<not> F c" and h: "halted s = None" and v: "1 \<le> v" "v < 6"
  shows "migrated (v + 1) s (migrateFrom F li v s)"
proof -
  consider "v = 1" | "v = 2" | "v = 3" | "v = 4" | "v = 5" using v by arith
  then show ?thesis
  proof cases
    case 1
    then show ?thesis using migrateToV2_nofault [OF nf h] h by (simp add: migrateFrom_eq)
  next
    case 2
    then show ?thesis using migrateToV3_nofault [OF nf h] h by (simp add: migrateFrom_eq)
  next
    case 3
    then show ?thesis using migrateToV4_nofault [OF nf h] h by (simp add: migrateFrom_eq)
  next
    case 4
    then show ?thesis using migrateToV5_nofault [OF nf h] h by (simp add: migrateFrom_eq)
  next
    case 5
    then show ?thesis using migrateToV6_nofault [OF nf h] h by (simp add: migrateFrom_eq)
  qed
qed

lemma Migrate_known_version:
  assumes "\<not> F Open" "\<not> F SelectVersion" "halted start = None"
    "t_db_version (disk start) = Some (v # vs)"
  shows "MigrateLexiconDatabase F li start =
     migrateFrom F li v (start\<lparr>trace := trace start @ [Open, SelectVersion]\<rparr>)"
  using assms by (simp add: MigrateLexiconDatabase_def exitIfError_def db_Call_def)

section \<open>The order of the calls of a build\<close>



















lemma moves_run: "(\<And>s. reached del p s \<Longrightarrow> reached del p' (run fs s)) \<Longrightarrow> moves del p (run fs) p'"
  by (simp add: moves_def)







section \<open>The dataset that a build leaves\<close>


lemma written_Nil:
  "alphagramsWritten F [] = []" "wordsWritten F [] = []" "deletedWritten F [] = []"
  by (simp_all add: alphagramsWritten_def wordsWritten_def deletedWritten_def List.map_filter_def)


































text \<open>The example build meets the conditions of the theorems below.\<close>

lemma ex_card:
  "card (MakeAlphagram (LetterDist exNew) ` set (fileWords (exFs (LexiconFilename exNew)))) = 3"
  by code_simp

lemma ex_hyps:
  "\<forall>w \<in> set (fileWords (exFs (LexiconFilename exNew))).
      length (MakeAlphagram (LetterDist exNew) w) \<le> 15"
  "card (MakeAlphagram (LetterDist exNew) ` set (fileWords (exFs (LexiconFilename exNew)))) < 2 ^ 32"
  "familyName exLexMap ''NEW'' = Some FamilyCSW"
  "halted initState = None"
  "\<not> (False \<and> file_exists initState)"
  by (code_simp, simp add: ex_card, code_simp+)

section \<open>The provenance annotator\<close>

text \<open>
  Claim C5. The symbol string of a word is the concatenation, in this order, of the update
  marker when a prior edition exists and lacks the word, the CSW-only marker when the
  family is CSW and the latest TWL edition lacks the word, and the TWL-only marker when
  the family is TWL and the latest CSW edition lacks the word; each marker occurs at most
  once. In the alphagram row of the build, \<open>contains_word_uniq_to_lex_split\<close> is 1 exactly
  when the symbol string of some member word contains \<open>$\<close> or \<open>#\<close> and 0 otherwise, and
  \<open>contains_update_to_lex\<close> is 1 exactly when one contains \<open>+\<close> and 0 otherwise.
\<close>

theorem provenance_symbols:
  "findLexSymbols word latestCSW latestTWL lexFamily priorLex =
     (if \<exists>p. priorLex = Some p \<and> \<not> FindWord (Dawg p) word then LexiconUpdateSymbol else []) @
     (if lexFamily = FamilyCSW \<and> \<not> FindWord (Dawg latestTWL) word then CSWOnlySymbol else []) @
     (if lexFamily = FamilyTWL \<and> \<not> FindWord (Dawg latestCSW) word then TWLOnlySymbol else [])
   \<and> count_list (findLexSymbols word latestCSW latestTWL lexFamily priorLex) CHR ''+'' \<le> 1
   \<and> count_list (findLexSymbols word latestCSW latestTWL lexFamily priorLex) CHR ''#'' \<le> 1
   \<and> count_list (findLexSymbols word latestCSW latestTWL lexFamily priorLex) CHR ''$'' \<le> 1
   \<and> a_contains_word_uniq_to_lex_split
        (alphRow li alph
           (map (\<lambda>w. findLexSymbols w latestCSW latestTWL lexFamily priorLex) (words alph)) prob) =
      Some (if \<exists>w \<in> set (words alph).
                 Contains (findLexSymbols w latestCSW latestTWL lexFamily priorLex) ''$'' \<or>
                 Contains (findLexSymbols w latestCSW latestTWL lexFamily priorLex) ''#''
            then 1 else 0)
   \<and> a_contains_update_to_lex
        (alphRow li alph
           (map (\<lambda>w. findLexSymbols w latestCSW latestTWL lexFamily priorLex) (words alph)) prob) =
      Some (if \<exists>w \<in> set (words alph).
                 Contains (findLexSymbols w latestCSW latestTWL lexFamily priorLex) ''+''
            then 1 else 0)"
proof -
  let ?f = "\<lambda>w. findLexSymbols w latestCSW latestTWL lexFamily priorLex"
  have eq: "?f word =
     (if \<exists>p. priorLex = Some p \<and> \<not> FindWord (Dawg p) word then LexiconUpdateSymbol else []) @
     (if lexFamily = FamilyCSW \<and> \<not> FindWord (Dawg latestTWL) word then CSWOnlySymbol else []) @
     (if lexFamily = FamilyTWL \<and> \<not> FindWord (Dawg latestCSW) word then TWLOnlySymbol else [])"
    by (simp add: findLexSymbols_eq LexiconUpdateSymbol_def CSWOnlySymbol_def TWLOnlySymbol_def)
  have c1: "count_list (?f word) CHR ''+'' \<le> 1"
    by (simp add: findLexSymbols_eq)
  have c2: "count_list (?f word) CHR ''#'' \<le> 1"
    by (simp add: findLexSymbols_eq)
  have c3: "count_list (?f word) CHR ''$'' \<le> 1"
    by (simp add: findLexSymbols_eq)
  have u: "uint (containsWordUniqueToLexSplit (map ?f (words alph))) =
      (if \<exists>w \<in> set (words alph). Contains (?f w) ''$'' \<or> Contains (?f w) ''#'' then 1 else 0)"
  proof (cases "\<exists>w \<in> set (words alph). Contains (?f w) ''$'' \<or> Contains (?f w) ''#''")
    case True
    then have "containsWordUniqueToLexSplit (map ?f (words alph)) = 1"
      unfolding containsWordUniqueToLexSplit_iff by (simp add: Bex_def)
    with True show ?thesis by simp
  next
    case False
    then have "containsWordUniqueToLexSplit (map ?f (words alph)) = 0"
      unfolding containsWordUniqueToLexSplit_zero by (simp add: Bex_def)
    with False show ?thesis by simp
  qed
  have v: "uint (containsUpdateToLex (map ?f (words alph))) =
      (if \<exists>w \<in> set (words alph). Contains (?f w) ''+'' then 1 else 0)"
  proof (cases "\<exists>w \<in> set (words alph). Contains (?f w) ''+''")
    case True
    then have "containsUpdateToLex (map ?f (words alph)) = 1"
      unfolding containsUpdateToLex_iff by (simp add: Bex_def)
    with True show ?thesis by simp
  next
    case False
    then have "containsUpdateToLex (map ?f (words alph)) = 0"
      unfolding containsUpdateToLex_zero by (simp add: Bex_def)
    with False show ?thesis by simp
  qed
  show ?thesis
    using eq c1 c2 c3 u v by (simp add: alphRow_def)
qed

theorem provenance_symbols_witness:
  "findLexSymbols ''ZAX'' (exLexicon ''csw.txt'' [''ZAX'', ''AX'']) (exLexicon ''twl.txt'' [''AX''])
     FamilyCSW (Some (exLexicon ''old.txt'' [''AX''])) = ''+#''
   \<and> findLexSymbols ''AX'' (exLexicon ''csw.txt'' [''ZAX'', ''AX'']) (exLexicon ''twl.txt'' [''AX''])
     FamilyCSW (Some (exLexicon ''old.txt'' [''AX''])) = []"
  using provenance_symbols [of "''ZAX''" "exLexicon ''csw.txt'' [''ZAX'', ''AX'']"
      "exLexicon ''twl.txt'' [''AX'']" FamilyCSW "Some (exLexicon ''old.txt'' [''AX''])"]
    provenance_symbols [of "''AX''" "exLexicon ''csw.txt'' [''ZAX'', ''AX'']"
      "exLexicon ''twl.txt'' [''AX'']" FamilyCSW "Some (exLexicon ''old.txt'' [''AX''])"]
  by (simp add: exLexicon_def FindWord_def LexiconUpdateSymbol_def CSWOnlySymbol_def)

section \<open>Probability ranks\<close>

text \<open>
  Claim C1, as amended. When no database call fails, the build is not refused, the
  lexicon is known, every alphagram of the word list has at most 15 letters and there are
  fewer than \<open>2^32\<close> alphagrams, the build returns normally and the alphagram rows it
  leaves are: one per alphagram class; in the order of combination count descending with
  the alphagram string ascending as tie-break; of each length \<open>L\<close>, with probabilities
  \<open>1, 2, \<dots>, K\<close> in that order, \<open>K\<close> being the number of classes of length \<open>L\<close>; so within
  one length a smaller probability never goes with a smaller combination count.
\<close>

theorem probability_ranks:
  assumes nf: "\<And>c. \<not> F c"
    and h: "halted init = None"
    and q: "\<not> (quitIfExists \<and> file_exists init)"
    and fam: "familyName lexMap lexiconName \<noteq> None"
    and len: "\<forall>w \<in> set (fileWords (fs (LexiconFilename li))).
                length (MakeAlphagram (LetterDist li) w) \<le> 15"
    and size: "card (MakeAlphagram (LetterDist li) ` set (fileWords (fs (LexiconFilename li)))) < 2 ^ 32"
  shows "(let s' = CreateLexiconDatabase F fs g lexiconName li lexMap quitIfExists init;
              rows = t_alphagrams (disk s');
              classes = MakeAlphagram (LetterDist li) ` set (fileWords (fs (LexiconFilename li)))
          in halted s' = None \<and>
             distinct (map a_alphagram rows) \<and> set (map a_alphagram rows) = classes \<and>
             sorted_wrt rowBefore rows \<and>
             (\<forall>r \<in> set rows. a_length r = int (length (a_alphagram r)) \<and>
                a_combinations r = uint (Combinations li (a_alphagram r) True)) \<and>
             (\<forall>L. map a_probability (filter (\<lambda>r. a_length r = int L) rows) =
                   map int [1..<Suc (card {k \<in> classes. length k = L})]) \<and>
             (\<forall>r \<in> set rows. \<forall>r' \<in> set rows.
                a_length r = a_length r' \<and> a_probability r < a_probability r' \<longrightarrow>
                a_combinations r' \<le> a_combinations r))"
proof -
  define ad where "ad = populateAlphsDefs (fs (LexiconFilename li)) (Combinations li) (LetterDist li)"
  define alphs where "alphs = sortAlphByCombos (alphaMapValues (alphagrams ad))"
  define classes where "classes = MakeAlphagram (LetterDist li) ` set (fileWords (fs (LexiconFilename li)))"
  obtain lexFamily where fam': "familyName lexMap lexiconName = Some lexFamily"
    using fam by auto
  define symf where "symf = (\<lambda>w. findLexSymbols w (newestInFamily lexMap FamilyCSW)
     (newestInFamily lexMap FamilyTWL) lexFamily (priorLexicon lexMap lexFamily lexiconName))"
  define rows where "rows = rankedRows li symf alphs (replicate 16 0)"
  have keys: "distinct (map fst (alphagrams ad))" "set (map fst (alphagrams ad)) = classes"
    unfolding ad_def classes_def by (rule populate_keys)+
  have vals: "map alphagram (alphaMapValues (alphagrams ad)) = map fst (alphagrams ad)"
    unfolding ad_def by (rule populate_values_alphagram)
  have ms: "mset (map alphagram alphs) = mset (map fst (alphagrams ad))"
    unfolding alphs_def using vals mset_sortAlphByCombos [of "alphaMapValues (alphagrams ad)"]
    by (metis mset_map)
  have dist_alphs: "distinct (map alphagram alphs)"
    using ms keys(1) by (metis mset_eq_imp_distinct_iff)
  have set_alphs: "set (map alphagram alphs) = classes"
    using ms keys(2) by (metis set_mset_mset)
  have len_vals: "\<forall>a \<in> set (alphaMapValues (alphagrams ad)). length (alphagram a) \<le> 15"
  proof
    fix a assume "a \<in> set (alphaMapValues (alphagrams ad))"
    then have "alphagram a \<in> set (map alphagram (alphaMapValues (alphagrams ad)))" by simp
    then have "alphagram a \<in> classes" using vals keys(2) by simp
    then show "length (alphagram a) \<le> 15" using len by (auto simp: classes_def)
  qed
  have len_alphs: "\<forall>a \<in> set alphs. length (alphagram a) \<le> 15"
    using len_vals by (simp add: alphs_def set_sortAlphByCombos)
  have combos_alphs: "\<forall>a \<in> set alphs. combinations a = Combinations li (alphagram a) True"
  proof
    fix a assume "a \<in> set alphs"
    then have "a \<in> snd ` set (alphagrams ad)"
      by (simp add: alphs_def set_sortAlphByCombos alphaMapValues_def)
    then obtain k where "(k, a) \<in> set (alphagrams ad)" by force
    then show "combinations a = Combinations li (alphagram a) True"
      using populate_class [of k a "fs (LexiconFilename li)" "Combinations li" "LetterDist li"]
      by (simp add: ad_def)
  qed
  have build: "halted (CreateLexiconDatabase F fs g lexiconName li lexMap quitIfExists init) = None"
    "t_alphagrams (disk (CreateLexiconDatabase F fs g lexiconName li lexMap quitIfExists init)) = rows"
    using CreateLexiconDatabase_nofault [OF nf h q fam', where fs = fs and li = li and g = g] len_vals
    by (simp_all add: Let_def ad_def alphs_def rows_def symf_def)
  have r1: "map a_alphagram rows = map alphagram alphs"
    unfolding rows_def by (rule rankedRows_alphagram)
  have d: "distinct (map a_alphagram rows)" "set (map a_alphagram rows) = classes"
    using r1 dist_alphs set_alphs by simp_all
  have sorted_alphs: "sorted_wrt Less alphs"
    unfolding alphs_def
    by (rule strict_sorted_sortAlphByCombos) (simp add: vals keys(1))
  have sorted_rows: "sorted_wrt rowBefore rows"
    unfolding rows_def using sorted_alphs by (rule rankedRows_sorted)
  have row_fields: "\<forall>r \<in> set rows. a_length r = int (length (a_alphagram r)) \<and>
                a_combinations r = uint (Combinations li (a_alphagram r) True)"
  proof
    fix r assume "r \<in> set rows"
    then obtain i where i: "i < length rows" "rows ! i = r" by (metis in_set_conv_nth)
    then have ia: "i < length alphs" by (simp add: rows_def rankedRows_length)
    then have "alphs ! i \<in> set alphs" by simp
    then show "a_length r = int (length (a_alphagram r)) \<and>
                a_combinations r = uint (Combinations li (a_alphagram r) True)"
      using rankedRows_nth [OF ia, of li symf "replicate 16 0"] i(2) combos_alphs
      by (simp add: rows_def)
  qed
  have card_alphs: "length alphs < 2 ^ 32"
  proof -
    have "length alphs = length (map alphagram alphs)" by simp
    also have "\<dots> = card classes"
      using dist_alphs set_alphs distinct_card by metis
    finally show ?thesis using size by (simp add: classes_def)
  qed
  have cohort: "map a_probability (filter (\<lambda>r. a_length r = int L) rows) =
                   map int [1..<Suc (card {k \<in> classes. length k = L})]" for L
  proof -
    have cnt: "length (filter (\<lambda>a. length (alphagram a) = L) alphs) = card {k \<in> classes. length k = L}"
    proof -
      have "length (filter (\<lambda>a. length (alphagram a) = L) alphs) =
            length (filter (\<lambda>k. length k = L) (map alphagram alphs))"
        by (simp add: filter_map comp_def)
      also have "\<dots> = card ({k. length k = L} \<inter> set (map alphagram alphs))"
        using dist_alphs by (rule distinct_length_filter)
      also have "{k. length k = L} \<inter> set (map alphagram alphs) = {k \<in> classes. length k = L}"
        using set_alphs by auto
      finally show ?thesis .
    qed
    show ?thesis
    proof (cases "L < 16")
      case True
      then show ?thesis
        using rankedRows_cohort_zero [OF True len_alphs card_alphs, of li symf] cnt
        by (simp add: rows_def)
    next
      case False
      have "a_length r \<noteq> int L" if "r \<in> set rows" for r
      proof -
        have "a_alphagram r \<in> classes" using that d by auto
        then have "length (a_alphagram r) \<le> 15" using len by (auto simp: classes_def)
        then show ?thesis using row_fields that False by auto
      qed
      then have "filter (\<lambda>r. a_length r = int L) rows = []"
        by (simp add: filter_empty_conv)
      moreover have "{k \<in> classes. length k = L} = {}"
        using False len by (auto simp: classes_def)
      then have "card {k \<in> classes. length k = L} = 0"
        by (simp only: card.empty)
      ultimately show ?thesis by (simp del: upt_Suc)
    qed
  qed
  have order: "\<forall>r \<in> set rows. \<forall>r' \<in> set rows.
                a_length r = a_length r' \<and> a_probability r < a_probability r' \<longrightarrow>
                a_combinations r' \<le> a_combinations r"
  proof (intro ballI impI)
    fix r r' assume r: "r \<in> set rows" "r' \<in> set rows"
      and c: "a_length r = a_length r' \<and> a_probability r < a_probability r'"
    have l: "a_length r' = int (length (a_alphagram r'))" using row_fields r(2) by simp
    show "a_combinations r' \<le> a_combinations r"
      using rank_order [OF sorted_rows cohort [of "length (a_alphagram r')"] r(1) r(2)] c l
      by simp
  qed
  show ?thesis
    using build(1) d sorted_rows row_fields cohort order
    unfolding Let_def build(2) classes_def [symmetric]
    by blast
qed

text \<open>The example word list: three classes, two of them of length 3.\<close>

theorem probability_ranks_witness:
  "halted (CreateLexiconDatabase noFaults exFs exGaddag ''NEW'' exNew exLexMap False initState) = None \<and>
   sorted_wrt rowBefore
     (t_alphagrams (disk (CreateLexiconDatabase noFaults exFs exGaddag ''NEW'' exNew exLexMap False initState))) \<and>
   map (\<lambda>r. (a_alphagram r, a_combinations r, a_length r, a_probability r))
     (t_alphagrams (disk (CreateLexiconDatabase noFaults exFs exGaddag ''NEW'' exNew exLexMap False initState))) =
   [(''AET'', 7, 3, 1), (''AX'', 2, 2, 1), (''AXZ'', 2, 3, 2)]"
proof -
  have nf: "\<And>c. \<not> noFaults c" by (simp add: noFaults_def)
  have fam: "familyName exLexMap ''NEW'' \<noteq> None" by code_simp
  have "halted (CreateLexiconDatabase noFaults exFs exGaddag ''NEW'' exNew exLexMap False initState) = None \<and>
   sorted_wrt rowBefore
     (t_alphagrams (disk (CreateLexiconDatabase noFaults exFs exGaddag ''NEW'' exNew exLexMap False initState)))"
    using probability_ranks [where F = noFaults and init = initState and quitIfExists = False
        and lexMap = exLexMap and lexiconName = "''NEW''" and fs = exFs and li = exNew and g = exGaddag,
        OF nf ex_hyps(4) ex_hyps(5) fam ex_hyps(1) ex_hyps(2)]
    by (simp add: Let_def)
  moreover have "map (\<lambda>r. (a_alphagram r, a_combinations r, a_length r, a_probability r))
     (t_alphagrams (disk (CreateLexiconDatabase noFaults exFs exGaddag ''NEW'' exNew exLexMap False initState))) =
   [(''AET'', 7, 3, 1), (''AX'', 2, 2, 1), (''AXZ'', 2, 3, 2)]"
    by code_simp
  ultimately show ?thesis by simp
qed

text \<open>
  Claim C1 as stated, for every word list, fails on a list with a word of 16 letters: the
  build panics at the class of that word and leaves no alphagram row, so the class
  \<open>AX\<close> of length 2 has no rank.
\<close>

theorem probability_ranks_counterexample:
  "''AX'' \<in> MakeAlphagram (LetterDist exBig) ` set (fileWords (exFs (LexiconFilename exBig))) \<and>
   halted (CreateLexiconDatabase noFaults exFs exGaddag ''BIG'' exBig exLexMap False initState) = Some Panic \<and>
   t_alphagrams (disk (CreateLexiconDatabase noFaults exFs exGaddag ''BIG'' exBig exLexMap False initState)) = []"
  by code_simp


section \<open>Deleted words\<close>

text \<open>
  Claim C6. In a build that no failing call or out-of-range length cuts short, the
  \<open>deletedwords\<close> table holds, when a prior edition exists, one row \<open>(word, length)\<close> for
  every word of the prior edition's word list that the current dawg does not accept, in
  lexicographic order; when no prior edition exists it holds no row.
\<close>

theorem deleted_words:
  assumes nf: "\<And>c. \<not> F c"
    and h: "halted init = None"
    and q: "\<not> (quitIfExists \<and> file_exists init)"
    and fam: "familyName lexMap lexiconName = Some lexFamily"
    and len: "\<forall>w \<in> set (fileWords (fs (LexiconFilename li))).
                length (MakeAlphagram (LetterDist li) w) \<le> 15"
  shows "t_deletedwords (disk (CreateLexiconDatabase F fs g lexiconName li lexMap quitIfExists init)) =
     (case priorLexicon lexMap lexFamily lexiconName of
        None \<Rightarrow> []
      | Some p \<Rightarrow>
          map (\<lambda>w. (w, int (length w)))
            (sort (filter (\<lambda>w. \<not> FindWord (Dawg li) w)
               (remdups (fileWords (fs (LexiconFilename p)))))))"
proof -
  define ad where "ad = populateAlphsDefs (fs (LexiconFilename li)) (Combinations li) (LetterDist li)"
  have keys: "set (map fst (alphagrams ad)) =
      MakeAlphagram (LetterDist li) ` set (fileWords (fs (LexiconFilename li)))"
    unfolding ad_def by (rule populate_keys)
  have vals: "map alphagram (alphaMapValues (alphagrams ad)) = map fst (alphagrams ad)"
    unfolding ad_def by (rule populate_values_alphagram)
  have len_vals: "\<forall>a \<in> set (alphaMapValues (alphagrams ad)). length (alphagram a) \<le> 15"
  proof
    fix a assume "a \<in> set (alphaMapValues (alphagrams ad))"
    then have "alphagram a \<in> set (map alphagram (alphaMapValues (alphagrams ad)))" by simp
    then have "alphagram a \<in> MakeAlphagram (LetterDist li) ` set (fileWords (fs (LexiconFilename li)))"
      using vals keys by simp
    then show "length (alphagram a) \<le> 15" using len by auto
  qed
  have "t_deletedwords (disk (CreateLexiconDatabase F fs g lexiconName li lexMap quitIfExists init)) =
     map (\<lambda>w. (w, int (length w)))
       (sort (findDeletedWords fs li (priorLexicon lexMap lexFamily lexiconName)))"
    using CreateLexiconDatabase_nofault [OF nf h q fam, where fs = fs and li = li and g = g] len_vals
    by (simp add: Let_def ad_def)
  then show ?thesis
    by (cases "priorLexicon lexMap lexFamily lexiconName")
       (simp_all add: findDeletedWords_sorted, simp add: findDeletedWords_def)
qed

text \<open>The prior edition of the example has \<open>QUIZ\<close> and \<open>TAE\<close>, which the current dawg lacks.\<close>

theorem deleted_words_witness:
  "t_deletedwords (disk (CreateLexiconDatabase noFaults exFs exGaddag ''NEW'' exNew exLexMap False initState)) =
     [(''QUIZ'', 4), (''TAE'', 3)]"
proof -
  have nf: "\<And>c. \<not> noFaults c" by (simp add: noFaults_def)
  have "(case priorLexicon exLexMap FamilyCSW ''NEW'' of
        None \<Rightarrow> []
      | Some p \<Rightarrow>
          map (\<lambda>w. (w, int (length w)))
            (sort (filter (\<lambda>w. \<not> FindWord (Dawg exNew) w)
               (remdups (fileWords (exFs (LexiconFilename p))))))) = [(''QUIZ'', 4), (''TAE'', 3)]"
    by code_simp
  then show ?thesis
    using deleted_words [where F = noFaults and init = initState and quitIfExists = False
        and lexMap = exLexMap and lexiconName = "''NEW''" and fs = exFs and li = exNew and g = exGaddag and lexFamily = FamilyCSW,
        OF nf ex_hyps(4) ex_hyps(5) ex_hyps(3) ex_hyps(1)]
    by simp
qed


section \<open>Words that occur more than once\<close>

text \<open>
  Claim C10. The member words of a class are the words of the list with that alphagram,
  one per occurrence and in file order, so a word on two lines is a member twice. The
  combination count of a class is the callback's value for its alphagram, and the
  callback is called once per alphagram, in the order of first occurrence. In a build
  that runs to its end the words table has one row per occurrence of a word, and
  \<open>num_anagrams\<close> is the number of occurrences of words with the row's alphagram.
\<close>

theorem repeated_words:
  assumes nf: "\<And>c. \<not> F c"
    and h: "halted init = None"
    and q: "\<not> (quitIfExists \<and> file_exists init)"
    and fam: "familyName lexMap lexiconName \<noteq> None"
    and len: "\<forall>w \<in> set (fileWords (fs (LexiconFilename li))).
                length (MakeAlphagram (LetterDist li) w) \<le> 15"
  shows "(let ws = fileWords (fs (LexiconFilename li));
              ad = populateAlphsDefs (fs (LexiconFilename li)) (Combinations li) (LetterDist li);
              s' = CreateLexiconDatabase F fs g lexiconName li lexMap quitIfExists init
          in (\<forall>a \<in> set (alphaMapValues (alphagrams ad)).
                words a = filter (\<lambda>w. MakeAlphagram (LetterDist li) w = alphagram a) ws \<and>
                combinations a = Combinations li (alphagram a) True) \<and>
             comboCalls ad = rev (remdups (rev (map (MakeAlphagram (LetterDist li)) ws))) \<and>
             distinct (comboCalls ad) \<and>
             mset (map w_word (t_words (disk s'))) = mset ws \<and>
             (\<forall>r \<in> set (t_alphagrams (disk s')).
                a_num_anagrams r =
                  Some (int (length (filter (\<lambda>w. MakeAlphagram (LetterDist li) w = a_alphagram r) ws)))))"
proof -
  define ws where "ws = fileWords (fs (LexiconFilename li))"
  define ad where "ad = populateAlphsDefs (fs (LexiconFilename li)) (Combinations li) (LetterDist li)"
  define alphs where "alphs = sortAlphByCombos (alphaMapValues (alphagrams ad))"
  obtain lexFamily where fam': "familyName lexMap lexiconName = Some lexFamily"
    using fam by auto
  define symf where "symf = (\<lambda>w. findLexSymbols w (newestInFamily lexMap FamilyCSW)
     (newestInFamily lexMap FamilyTWL) lexFamily (priorLexicon lexMap lexFamily lexiconName))"
  define rows where "rows = rankedRows li symf alphs (replicate 16 0)"
  define wrow where "wrow = wordRow g li (definitions ad) (newestInFamily lexMap FamilyCSW)
     (newestInFamily lexMap FamilyTWL) lexFamily (priorLexicon lexMap lexFamily lexiconName)"
  have keys: "set (map fst (alphagrams ad)) = MakeAlphagram (LetterDist li) ` set ws"
    unfolding ad_def ws_def by (rule populate_keys)
  have vals: "map alphagram (alphaMapValues (alphagrams ad)) = map fst (alphagrams ad)"
    unfolding ad_def by (rule populate_values_alphagram)
  have len_vals: "\<forall>a \<in> set (alphaMapValues (alphagrams ad)). length (alphagram a) \<le> 15"
  proof
    fix a assume "a \<in> set (alphaMapValues (alphagrams ad))"
    then have "alphagram a \<in> set (map alphagram (alphaMapValues (alphagrams ad)))" by simp
    then have "alphagram a \<in> MakeAlphagram (LetterDist li) ` set ws"
      using vals keys by simp
    then show "length (alphagram a) \<le> 15" using len by (auto simp: ws_def)
  qed
  have classes: "\<forall>a \<in> set (alphaMapValues (alphagrams ad)).
                words a = filter (\<lambda>w. MakeAlphagram (LetterDist li) w = alphagram a) ws \<and>
                combinations a = Combinations li (alphagram a) True"
  proof
    fix a assume a: "a \<in> set (alphaMapValues (alphagrams ad))"
    then obtain k where "(k, a) \<in> set (alphagrams ad)"
      by (force simp: alphaMapValues_def)
    then show "words a = filter (\<lambda>w. MakeAlphagram (LetterDist li) w = alphagram a) ws \<and>
                combinations a = Combinations li (alphagram a) True"
      using populate_class [of k a "fs (LexiconFilename li)" "Combinations li" "LetterDist li"]
      by (simp add: ad_def ws_def)
  qed
  have calls: "comboCalls ad = rev (remdups (rev (map (MakeAlphagram (LetterDist li)) ws)))"
    unfolding ad_def ws_def by (rule populate_comboCalls)
  have dcalls: "distinct (comboCalls ad)"
    unfolding calls by simp
  have build: "t_alphagrams (disk (CreateLexiconDatabase F fs g lexiconName li lexMap quitIfExists init)) = rows"
    "t_words (disk (CreateLexiconDatabase F fs g lexiconName li lexMap quitIfExists init)) =
       concat (map (\<lambda>a. map (wrow a) (words a)) alphs)"
    using CreateLexiconDatabase_nofault [OF nf h q fam', where fs = fs and li = li and g = g] len_vals
    by (simp_all add: Let_def ad_def alphs_def rows_def symf_def wrow_def)
  have "map w_word (concat (map (\<lambda>a. map (wrow a) (words a)) alphs)) = concat (map words alphs)"
    by (simp add: map_concat comp_def wrow_def wordRow_def Let_def)
  moreover have "mset (concat (map words alphs)) = mset ws"
    unfolding ws_def
    by (rule mset_class_words [where combos = "Combinations li" and dist = "LetterDist li"])
       (simp add: alphs_def ad_def mset_sortAlphByCombos)
  ultimately have wrows: "mset (map w_word (t_words (disk (CreateLexiconDatabase F fs g lexiconName li lexMap quitIfExists init)))) = mset ws"
    by (simp add: build(2))
  have anagrams: "\<forall>r \<in> set rows. a_num_anagrams r =
      Some (int (length (filter (\<lambda>w. MakeAlphagram (LetterDist li) w = a_alphagram r) ws)))"
  proof
    fix r assume "r \<in> set rows"
    then obtain i where i: "i < length rows" "rows ! i = r" by (metis in_set_conv_nth)
    then have ia: "i < length alphs" by (simp add: rows_def rankedRows_length)
    then have "alphs ! i \<in> set (alphaMapValues (alphagrams ad))"
      by (metis alphs_def nth_mem set_sortAlphByCombos)
    then have "words (alphs ! i) =
       filter (\<lambda>w. MakeAlphagram (LetterDist li) w = alphagram (alphs ! i)) ws"
      using classes by simp
    then show "a_num_anagrams r =
      Some (int (length (filter (\<lambda>w. MakeAlphagram (LetterDist li) w = a_alphagram r) ws)))"
      using rankedRows_nth [OF ia, of li symf "replicate 16 0"] i(2)
      by (simp add: rows_def)
  qed
  show ?thesis
    using classes calls dcalls wrows anagrams
    unfolding Let_def build(1) ws_def [symmetric] ad_def [symmetric]
    by blast
qed

text \<open>In the example word list \<open>TEA\<close> occurs on two lines.\<close>

theorem repeated_words_witness:
  "fileWords (exFs (LexiconFilename exNew)) = [''TEA'', ''EAT'', ''AX'', ''ZAX'', ''ATE'', ''TEA''] \<and>
   mset (map w_word (t_words (disk
     (CreateLexiconDatabase noFaults exFs exGaddag ''NEW'' exNew exLexMap False initState)))) =
   mset [''TEA'', ''EAT'', ''AX'', ''ZAX'', ''ATE'', ''TEA''] \<and>
   map (\<lambda>r. (a_alphagram r, a_num_anagrams r)) (t_alphagrams (disk
     (CreateLexiconDatabase noFaults exFs exGaddag ''NEW'' exNew exLexMap False initState))) =
   [(''AET'', Some 4), (''AX'', Some 1), (''AXZ'', Some 1)] \<and>
   comboCalls (populateAlphsDefs (exFs (LexiconFilename exNew)) (Combinations exNew) (LetterDist exNew)) =
   [''AET'', ''AX'', ''AXZ'']"
proof -
  have nf: "\<And>c. \<not> noFaults c" by (simp add: noFaults_def)
  have fam: "familyName exLexMap ''NEW'' \<noteq> None" by code_simp
  have ws: "fileWords (exFs (LexiconFilename exNew)) = [''TEA'', ''EAT'', ''AX'', ''ZAX'', ''ATE'', ''TEA'']"
    by code_simp
  have "mset (map w_word (t_words (disk
     (CreateLexiconDatabase noFaults exFs exGaddag ''NEW'' exNew exLexMap False initState)))) =
     mset (fileWords (exFs (LexiconFilename exNew)))"
    using repeated_words [where F = noFaults and init = initState and quitIfExists = False
        and lexMap = exLexMap and lexiconName = "''NEW''" and fs = exFs and li = exNew and g = exGaddag,
        OF nf ex_hyps(4) ex_hyps(5) fam ex_hyps(1)]
    by (simp add: Let_def)
  moreover have "map (\<lambda>r. (a_alphagram r, a_num_anagrams r)) (t_alphagrams (disk
     (CreateLexiconDatabase noFaults exFs exGaddag ''NEW'' exNew exLexMap False initState))) =
   [(''AET'', Some 4), (''AX'', Some 1), (''AXZ'', Some 1)]"
    by code_simp
  moreover have "comboCalls (populateAlphsDefs (exFs (LexiconFilename exNew)) (Combinations exNew) (LetterDist exNew)) =
   [''AET'', ''AX'', ''AXZ'']"
    by code_simp
  ultimately show ?thesis using ws by simp
qed

section \<open>Failing inserts\<close>

text \<open>
  Claim C2. The claim says that the first failing alphagram or word insert ends the
  process and leaves no row committed. The result of \<open>wordStmt.Exec\<close> is dropped: when
  every insert of the word \<open>EAT\<close> fails, the build of the example returns normally,
  commits the other word rows and all alphagram rows (the row of \<open>AET\<close> counting four
  anagrams) and writes the version row.
\<close>

theorem word_insert_failure_ignored:
  "halted (CreateLexiconDatabase wordFault exFs exGaddag ''NEW'' exNew exLexMap False initState) = None \<and>
   map w_word (t_words (disk
     (CreateLexiconDatabase wordFault exFs exGaddag ''NEW'' exNew exLexMap False initState))) =
   [''TEA'', ''ATE'', ''TEA'', ''AX'', ''ZAX''] \<and>
   map (\<lambda>r. (a_alphagram r, a_num_anagrams r)) (t_alphagrams (disk
     (CreateLexiconDatabase wordFault exFs exGaddag ''NEW'' exNew exLexMap False initState))) =
   [(''AET'', Some 4), (''AX'', Some 1), (''AXZ'', Some 1)] \<and>
   t_db_version (disk
     (CreateLexiconDatabase wordFault exFs exGaddag ''NEW'' exNew exLexMap False initState)) = Some [6]"
  by code_simp

section \<open>Alphagrams of more than 15 letters\<close>

text \<open>
  Claim C7. The claim says that a class of more than 15 letters is only left out of the
  ranking and never faults. On a word list with a word of 16 letters the build panics
  at the read of \<open>probs[wl]\<close>, after the word insert of that class: the transaction
  then holds the class \<open>AET\<close> and both word rows, and nothing of it reaches the file,
  which is left without rows and without its version row.
\<close>

theorem long_alphagram_panics:
  "map length (fileWords (exFs (LexiconFilename exLong))) = [3, 16] \<and>
   halted (CreateLexiconDatabase noFaults exFs exGaddag ''LONG'' exLong exLexMap False initState) = Some Panic \<and>
   map a_alphagram (case tx (CreateLexiconDatabase noFaults exFs exGaddag ''LONG'' exLong exLexMap False initState) of
      None \<Rightarrow> [] | Some d \<Rightarrow> t_alphagrams d) = [''AET''] \<and>
   map w_word (case tx (CreateLexiconDatabase noFaults exFs exGaddag ''LONG'' exLong exLexMap False initState) of
      None \<Rightarrow> [] | Some d \<Rightarrow> t_words d) = [''TEA'', ''ABCDEFGHIJKLMNOX''] \<and>
   t_alphagrams (disk (CreateLexiconDatabase noFaults exFs exGaddag ''LONG'' exLong exLexMap False initState)) = [] \<and>
   t_words (disk (CreateLexiconDatabase noFaults exFs exGaddag ''LONG'' exLong exLexMap False initState)) = [] \<and>
   t_db_version (disk (CreateLexiconDatabase noFaults exFs exGaddag ''LONG'' exLong exLexMap False initState)) = Some []"
  by code_simp

section \<open>A missing word list\<close>

text \<open>
  Claim C9. The claim says that a missing or unreadable word list aborts the build with
  no output. The error of \<open>os.Open\<close> is dropped: the build of a lexicon whose word list
  does not exist returns normally and leaves a dataset without alphagram and word rows,
  stamped with version 6.
\<close>

theorem missing_word_list_builds_empty_dataset:
  "exFs (LexiconFilename exMissing) = None \<and>
   halted (CreateLexiconDatabase noFaults exFs exGaddag ''MISSING'' exMissing exLexMap False initState) = None \<and>
   file_exists (CreateLexiconDatabase noFaults exFs exGaddag ''MISSING'' exMissing exLexMap False initState) \<and>
   t_alphagrams (disk (CreateLexiconDatabase noFaults exFs exGaddag ''MISSING'' exMissing exLexMap False initState)) = [] \<and>
   t_words (disk (CreateLexiconDatabase noFaults exFs exGaddag ''MISSING'' exMissing exLexMap False initState)) = [] \<and>
   t_db_version (disk (CreateLexiconDatabase noFaults exFs exGaddag ''MISSING'' exMissing exLexMap False initState)) = Some [6] \<and>
   trace (CreateLexiconDatabase noFaults exFs exGaddag ''MISSING'' exMissing exLexMap False initState) =
     [Open, CreateTables, Open, Begin, PrepareAlphInsert, PrepareWordInsert, Commit, InsertVersion 6]"
  by code_simp

section \<open>One version per invocation\<close>

text \<open>
  Claim C3. When no database call fails, the migrator on a dataset whose stored version
  is \<open>v\<close> with \<open>1 \<le> v < 6\<close> returns normally, stores version \<open>v + 1\<close> and extends the
  schema by the objects of the transition from \<open>v\<close> and by nothing else; on a dataset at
  version 6 it returns normally and leaves the dataset as it was.
\<close>

theorem migrate_one_version:
  assumes nf: "\<And>c. \<not> F c"
    and h: "halted start = None"
    and ver: "t_db_version (disk start) = Some (v # vs)"
  shows "(1 \<le> v \<and> v < 6 \<longrightarrow>
            halted (MigrateLexiconDatabase F li start) = None \<and>
            t_db_version (disk (MigrateLexiconDatabase F li start)) = Some (map (\<lambda>_. v + 1) (v # vs)) \<and>
            ddl (disk (MigrateLexiconDatabase F li start)) = ddl (disk start) @ transitionDdl v) \<and>
         (v = 6 \<longrightarrow>
            halted (MigrateLexiconDatabase F li start) = None \<and>
            disk (MigrateLexiconDatabase F li start) = disk start)"
proof -
  let ?s1 = "start\<lparr>trace := trace start @ [Open, SelectVersion]\<rparr>"
  have eq: "MigrateLexiconDatabase F li start = migrateFrom F li v ?s1"
    by (rule Migrate_known_version [OF nf nf h ver])
  have h1: "halted ?s1 = None" using h by simp
  have step: "migrated (v + 1) ?s1 (migrateFrom F li v ?s1)" if "1 \<le> v" "v < 6"
    using migrateFrom_nofault [OF nf h1 that] .
  have last: "migrateFrom F li 6 ?s1 = ?s1"
    using h1 by (simp add: migrateFrom_eq)
  show ?thesis
    unfolding eq using step ver last h by (auto simp: migrated_def)
qed

text \<open>
  A dataset at version 1 gets the three columns of version 2 and their values; one at
  version 6 stays as it is.
\<close>

theorem migrate_one_version_witness:
  "t_db_version (disk (MigrateLexiconDatabase noFaults exNew (exState (Some [1])))) = Some [2] \<and>
   ddl (disk (MigrateLexiconDatabase noFaults exNew (exState (Some [1])))) =
     ddl (exDb (Some [1])) @ [''num_anagrams'', ''point_value'', ''num_vowels'',
       ''num_anagrams_index'', ''point_value_index'', ''num_vowels_index''] \<and>
   map (\<lambda>r. (a_alphagram r, a_num_anagrams r, a_point_value r, a_num_vowels r))
     (t_alphagrams (disk (MigrateLexiconDatabase noFaults exNew (exState (Some [1]))))) =
     [(''AET'', Some 2, Some 3, Some 2)] \<and>
   disk (MigrateLexiconDatabase noFaults exNew (exState (Some [6]))) = exDb (Some [6])"
proof -
  have nf: "\<And>c. \<not> noFaults c" by (simp add: noFaults_def)
  have h: "halted (exState vs) = None" for vs by (simp add: exState_def)
  have d: "disk (exState vs) = exDb vs" for vs by (simp add: exState_def)
  have v: "t_db_version (disk (exState (Some [n]))) = Some (n # [])" for n
    by (simp add: exState_def exDb_def)
  have "map (\<lambda>r. (a_alphagram r, a_num_anagrams r, a_point_value r, a_num_vowels r))
     (t_alphagrams (disk (MigrateLexiconDatabase noFaults exNew (exState (Some [1]))))) =
     [(''AET'', Some 2, Some 3, Some 2)]"
    by code_simp
  then show ?thesis
    using migrate_one_version [where F = noFaults and start = "exState (Some [1])" and li = exNew,
        OF nf h v]
      migrate_one_version [where F = noFaults and start = "exState (Some [6])" and li = exNew,
        OF nf h v]
    by (simp add: d transitionDdl_def)
qed

section \<open>Reading the stored version\<close>

text \<open>
  Claim C4, as amended. Without a version table the migrator creates one holding
  version 1 and goes on from version 1 (when no call fails it returns normally with
  version 2 stored); with an empty version table it ends fatally and leaves the dataset
  as it was; with a stored version outside 1 to 6 it applies no transition, leaves the
  dataset as it was and returns normally.
\<close>

theorem migrate_version_read:
  assumes h: "halted start = None"
  shows "(t_db_version (disk start) = None \<and> (\<forall>c. \<not> F c) \<longrightarrow>
            MigrateLexiconDatabase F li start =
              migrateFrom F li 1
                (start\<lparr>disk := (disk start)\<lparr>ddl := ddl (disk start) @ [''db_version''],
                                            t_db_version := Some [1]\<rparr>,
                       trace := trace start @
                         [Open, SelectVersion, CreateVersionTable, InsertVersion 1]\<rparr>) \<and>
            halted (MigrateLexiconDatabase F li start) = None \<and>
            t_db_version (disk (MigrateLexiconDatabase F li start)) = Some [2]) \<and>
         (t_db_version (disk start) = Some [] \<longrightarrow>
            halted (MigrateLexiconDatabase F li start) = Some Fatal \<and>
            disk (MigrateLexiconDatabase F li start) = disk start) \<and>
         (\<forall>v vs. t_db_version (disk start) = Some (v # vs) \<and> \<not> (1 \<le> v \<and> v \<le> 6) \<and>
            \<not> F Open \<and> \<not> F SelectVersion \<longrightarrow>
            halted (MigrateLexiconDatabase F li start) = None \<and>
            disk (MigrateLexiconDatabase F li start) = disk start)"
proof (intro conjI impI allI)
  let ?boot = "start\<lparr>disk := (disk start)\<lparr>ddl := ddl (disk start) @ [''db_version''],
                                            t_db_version := Some [1]\<rparr>,
                       trace := trace start @
                         [Open, SelectVersion, CreateVersionTable, InsertVersion 1]\<rparr>"
  assume a: "t_db_version (disk start) = None \<and> (\<forall>c. \<not> F c)"
  then have nf: "\<And>c. \<not> F c" by simp
  show eq: "MigrateLexiconDatabase F li start = migrateFrom F li 1 ?boot"
    using a h by (simp add: MigrateLexiconDatabase_def exitIfError_def db_Call_def db_Exec_def)
  have hb: "halted ?boot = None" using h by simp
  have m: "migrated 2 ?boot (migrateFrom F li 1 ?boot)"
    using migrateFrom_nofault [where F = F and v = 1 and li = li, OF nf hb] by simp
  show "halted (MigrateLexiconDatabase F li start) = None"
    unfolding eq using m by (simp add: migrated_def)
  show "t_db_version (disk (MigrateLexiconDatabase F li start)) = Some [2]"
    unfolding eq using m by (simp add: migrated_def)
next
  assume a: "t_db_version (disk start) = Some []"
  show "halted (MigrateLexiconDatabase F li start) = Some Fatal"
    using a h by (simp add: MigrateLexiconDatabase_def exitIfError_def db_Call_def)
  show "disk (MigrateLexiconDatabase F li start) = disk start"
    using a h by (simp add: MigrateLexiconDatabase_def exitIfError_def db_Call_def)
next
  fix v vs
  assume a: "t_db_version (disk start) = Some (v # vs) \<and> \<not> (1 \<le> v \<and> v \<le> 6) \<and>
            \<not> F Open \<and> \<not> F SelectVersion"
  then have eq: "MigrateLexiconDatabase F li start =
     migrateFrom F li v (start\<lparr>trace := trace start @ [Open, SelectVersion]\<rparr>)"
    using h by (intro Migrate_known_version) auto
  have "migrateFrom F li v (start\<lparr>trace := trace start @ [Open, SelectVersion]\<rparr>) =
      start\<lparr>trace := trace start @ [Open, SelectVersion]\<rparr>"
    using a h by (auto simp: migrateFrom_eq)
  then show "halted (MigrateLexiconDatabase F li start) = None"
    and "disk (MigrateLexiconDatabase F li start) = disk start"
    using eq h by simp_all
qed

text \<open>The three cases on the example dataset.\<close>

theorem migrate_version_read_witness:
  "t_db_version (disk (MigrateLexiconDatabase noFaults exNew (exState None))) = Some [2] \<and>
   halted (MigrateLexiconDatabase noFaults exNew (exState (Some []))) = Some Fatal \<and>
   disk (MigrateLexiconDatabase noFaults exNew (exState (Some [0]))) = disk (exState (Some [0]))"
proof -
  have h: "halted (exState vs) = None" for vs by (simp add: exState_def)
  have a1: "t_db_version (disk (exState None)) = None \<and> (\<forall>c. \<not> noFaults c)"
    by (simp add: exState_def exDb_def noFaults_def)
  have a2: "t_db_version (disk (exState (Some []))) = Some []"
    by (simp add: exState_def exDb_def)
  have a3: "t_db_version (disk (exState (Some [0]))) = Some (0 # []) \<and> \<not> (1 \<le> (0::int) \<and> (0::int) \<le> 6) \<and>
            \<not> noFaults Open \<and> \<not> noFaults SelectVersion"
    by (simp add: exState_def exDb_def noFaults_def)
  have c1: "t_db_version (disk (MigrateLexiconDatabase noFaults exNew (exState None))) = Some [2]"
    using migrate_version_read [where F = noFaults and li = exNew and start = "exState None", OF h] a1
    by blast
  have c2: "halted (MigrateLexiconDatabase noFaults exNew (exState (Some []))) = Some Fatal"
    using migrate_version_read [where F = noFaults and li = exNew and start = "exState (Some [])", OF h] a2
    by blast
  have c3: "disk (MigrateLexiconDatabase noFaults exNew (exState (Some [0]))) = disk (exState (Some [0]))"
    using migrate_version_read [where F = noFaults and li = exNew and start = "exState (Some [0])", OF h] a3
    by blast
  show ?thesis using c1 c2 c3 by simp
qed

text \<open>
  Claim C4 as stated says that an unknown version ends the migrator fatally. At version
  7 the migrator issues its two reading calls and returns normally.
\<close>

theorem migrate_version_read_counterexample:
  "t_db_version (disk (exState (Some [7]))) = Some [7] \<and>
   halted (MigrateLexiconDatabase noFaults exNew (exState (Some [7]))) = None \<and>
   trace (MigrateLexiconDatabase noFaults exNew (exState (Some [7]))) = [Open, SelectVersion]"
  by code_simp

section \<open>The order of the persistence steps\<close>




end
